theory Spec2Isabelle
  imports Complex_Main "HOL-Library.AList"
begin

section \<open>Conversation storage and the overall leaderboard\<close>

text \<open>
  A shallow embedding of \<^verbatim>\<open>backend/storage.py\<close>, the file-backed store. The body of
  \<^verbatim>\<open>get_overall_scores\<close> in \<^verbatim>\<open>api/storage.py\<close> is the same text, line for line;
  the rest of that module talks to a relational database and is not modelled.

  The scan is modelled twice. \<open>get_overall_scores_json\<close> runs on what \<^verbatim>\<open>json.load\<close>
  returns, any JSON value, and every call that can raise is a branch that returns the
  exception. \<open>get_overall_scores\<close> runs on documents that follow the data model, where a
  field read with \<^verbatim>\<open>dict.get\<close> is an \<open>option\<close> (\<open>None\<close> is the missing key) of the
  declared type; \<open>enc_conversation\<close> writes such a document as JSON, and the two functions
  are proved to agree on it. Python's integers are unbounded: \<open>int\<close>.
\<close>

subsection \<open>Data model\<close>

text \<open>A JSON text as a tree. Numbers are integers (a number with a fraction or an
  exponent is not represented), a string is a sequence of code points below 256, and the
  members of an object are kept in the order of the text, repeated names included.\<close>

datatype json =
    JNull
  | JBool bool
  | JInt int
  | JStr string
  | JList "json list"
  | JDict "(string \<times> json) list"

text \<open>The Python values that callers put into stage 1 and stage 3, whose types are
  \<^verbatim>\<open>List[Dict[str, Any]]\<close> and \<^verbatim>\<open>Dict[str, Any]\<close>: besides what JSON has, tuples and
  dictionaries with integer keys. The storage layer never inspects them.\<close>

datatype pykey = KStr string | KInt int

datatype pyval =
    PNone
  | PBool bool
  | PInt int
  | PStr string
  | PList "pyval list"
  | PTuple "pyval list"
  | PDict "(pykey \<times> pyval) list"

text \<open>One element of \<^verbatim>\<open>stage2\<close>: the key \<^verbatim>\<open>"model"\<close> names the judge (the source
  binds it to \<^verbatim>\<open>ranker_model\<close>), \<^verbatim>\<open>"parsed_ranking"\<close> lists labels from best to worst.\<close>

record ranking_result =
  ranker_model :: "string option"
  parsed_ranking :: "string list option"

record message =
  role :: "string option"
  content :: "string option"
  stage1 :: "pyval option"
  stage2 :: "ranking_result list option"
  stage3 :: "pyval option"

record conversation =
  conv_id :: string
  created_at :: string
  title :: "string option"
  archived :: "bool option"
  messages :: "message list option"

text \<open>The values of the dictionary \<^verbatim>\<open>model_scores\<close>, for labels of type \<open>'l\<close>
  (strings in the data model, any hashable JSON value in general). Keys that the source
  adds or deletes along the way (\<^verbatim>\<open>position_history\<close>, \<^verbatim>\<open>average_position\<close>,
  \<^verbatim>\<open>average_points\<close>) are options. The two averages are Python floats; a float is
  represented by the rational number it is equal to.\<close>

record 'l scores =
  model :: 'l
  total_points :: int
  rankings_received :: int
  first_places :: int
  second_places :: int
  third_places :: int
  position_history :: "int list option"
  average_position :: "rat option"
  average_points :: "rat option"

text \<open>The local variables of \<^verbatim>\<open>get_overall_scores\<close> that its loops update. The
  dictionary keeps insertion order, which the leaderboard inherits: an association list
  from the key to the entry.\<close>

record ('k, 'l) tally =
  model_scores :: "('k \<times> 'l scores) list"
  total_conversations :: int
  total_rankings :: int

record 'l overall_scores =
  leaderboard :: "'l scores list"
  total_conversations_analyzed :: int
  total_rankings_processed :: int

datatype error =
    ValueError string
  | KeyError string
  | ZeroDivisionError
  | TypeError
  | AttributeError
  | OSError string

subsection \<open>Helpers for the Python primitives\<close>

text \<open>\<^verbatim>\<open>d.get(key, default)\<close>\<close>

definition dict_get :: "'a option \<Rightarrow> 'a \<Rightarrow> 'a" where
  "dict_get field dflt = (case field of None \<Rightarrow> dflt | Some v \<Rightarrow> v)"

text \<open>\<^verbatim>\<open>s.endswith(suf)\<close>\<close>

definition endswith :: "string \<Rightarrow> string \<Rightarrow> bool" where
  "endswith s suf \<longleftrightarrow> length suf \<le> length s \<and> drop (length s - length suf) s = suf"

text \<open>
  \<^verbatim>\<open>a / b\<close> on integers is the IEEE 754 double nearest to the exact quotient, a tie
  going to the even significand. For positive \<open>a\<close> and \<open>b\<close>, \<open>binade a b\<close> is the
  exponent \<open>e\<close> with \<open>pow2 e \<le> a / b < pow2 (e + 1)\<close>. A double has 53 significant bits
  and no exponent below \<open>-1022\<close>, so around the quotient the doubles are
  \<open>pow2 (max e (-1022) - 52)\<close> apart. The upper end of the exponent range is left out:
  Python raises \<^verbatim>\<open>OverflowError\<close> for a quotient of \<open>pow2 1024\<close> or more, which here needs
  a position or a count of that size, and a Python list has fewer than \<open>pow2 63\<close>
  elements. \<open>bit_length\<close> is \<^verbatim>\<open>int.bit_length\<close>.
\<close>

fun bit_length :: "nat \<Rightarrow> nat" where
  "bit_length n = (if n = 0 then 0 else Suc (bit_length (n div 2)))"

declare bit_length.simps [simp del]

definition pow2 :: "int \<Rightarrow> rat" where
  "pow2 k = (if 0 \<le> k then 2 ^ nat k else 1 / 2 ^ nat (- k))"

definition round_half_even :: "rat \<Rightarrow> int" where
  "round_half_even x =
     (let f = \<lfloor>x\<rfloor>; d = x - of_int f
      in if d < 1 / 2 then f
         else if 1 / 2 < d then f + 1
         else if even f then f else f + 1)"

definition binade :: "int \<Rightarrow> int \<Rightarrow> int" where
  "binade a b =
     (let k = int (bit_length (nat a)) - int (bit_length (nat b))
      in if pow2 k * of_int b \<le> of_int a then k else k - 1)"

definition nearest_double :: "int \<Rightarrow> int \<Rightarrow> rat" where
  "nearest_double a b =
     (if a = 0 then 0
      else let q = \<bar>of_int a / of_int b\<bar>;
               ulp = pow2 (max (binade \<bar>a\<bar> \<bar>b\<bar>) (- 1022) - 52)
           in sgn (of_int a / of_int b) * (of_int (round_half_even (q / ulp)) * ulp))"

definition true_div :: "int \<Rightarrow> int \<Rightarrow> error + rat" where
  "true_div a b = (if b = 0 then Inl ZeroDivisionError else Inr (nearest_double a b))"

subsection \<open>get\_overall\_scores\<close>

text \<open>The entry created for a label seen for the first time.\<close>

definition new_entry :: "'l \<Rightarrow> 'l scores" where
  "new_entry ranked_label =
     \<lparr>model = ranked_label, total_points = 0, rankings_received = 0,
      first_places = 0, second_places = 0, third_places = 0,
      position_history = Some [], average_position = None, average_points = None\<rparr>"

text \<open>The updates of one entry in the body of the innermost loop.\<close>

definition bump :: "int \<Rightarrow> nat \<Rightarrow> 'l scores \<Rightarrow> 'l scores" where
  "bump points position s =
     (let s1 = s\<lparr>total_points := total_points s + points\<rparr>;
          s2 = s1\<lparr>rankings_received := rankings_received s1 + 1\<rparr>;
          s3 = s2\<lparr>position_history :=
                    map_option (\<lambda>h. h @ [int position + 1]) (position_history s2)\<rparr>
      in if position = 0 then s3\<lparr>first_places := first_places s3 + 1\<rparr>
         else if position = 1 then s3\<lparr>second_places := second_places s3 + 1\<rparr>
         else if position = 2 then s3\<lparr>third_places := third_places s3 + 1\<rparr>
         else s3)"

text \<open>The body of the innermost loop, for one \<^verbatim>\<open>(position, ranked_label)\<close>.\<close>

definition credit ::
  "int \<Rightarrow> (string \<times> string scores) list \<Rightarrow> nat \<times> string \<Rightarrow> (string \<times> string scores) list" where
  "credit num_models ms pl =
     (case pl of (position, ranked_label) \<Rightarrow>
        let points = num_models - int position;
            ms1 = (if map_of ms ranked_label = None
                   then ms @ [(ranked_label, new_entry ranked_label)] else ms)
        in AList.map_entry ranked_label (bump points position) ms1)"

text \<open>The body of \<^verbatim>\<open>for ranking_result in stage2\<close>.\<close>

definition process_ranking ::
  "int \<Rightarrow> (string, string) tally \<Rightarrow> ranking_result \<Rightarrow> (string, string) tally" where
  "process_ranking num_models st ranking_result =
     (let ranking = dict_get (parsed_ranking ranking_result) []
      in if ranking = [] then st
         else st\<lparr>total_rankings := total_rankings st + 1,
                 model_scores :=
                   foldl (credit num_models) (model_scores st) (enumerate 0 ranking)\<rparr>)"

text \<open>The body of \<^verbatim>\<open>for message in data.get("messages", [])\<close>.\<close>

definition process_message :: "(string, string) tally \<Rightarrow> message \<Rightarrow> (string, string) tally" where
  "process_message st message =
     (if role message \<noteq> Some ''assistant'' then st
      else let rankings = dict_get (stage2 message) []
           in if rankings = [] then st
              else foldl (process_ranking (int (length rankings)))
                     (st\<lparr>total_conversations := total_conversations st + 1\<rparr>) rankings)"

text \<open>The body of \<^verbatim>\<open>for filename in os.listdir(DATA_DIR)\<close>. A directory entry is a
  file name with the document the file holds.\<close>

definition process_file ::
  "(string, string) tally \<Rightarrow> string \<times> conversation \<Rightarrow> (string, string) tally" where
  "process_file st entry =
     (case entry of (filename, data) \<Rightarrow>
        if \<not> endswith filename ''.json'' then st
        else if dict_get (archived data) False then st
        else foldl process_message st (dict_get (messages data) []))"

text \<open>The body of \<^verbatim>\<open>for model, scores in model_scores.items()\<close> under its guard.\<close>

definition finish_entry :: "'l scores \<Rightarrow> error + 'l scores" where
  "finish_entry s =
     (case position_history s of
        None \<Rightarrow> Inl (KeyError ''position_history'')
      | Some h \<Rightarrow>
          (case true_div (sum_list h) (int (length h)) of
             Inl e \<Rightarrow> Inl e
           | Inr avg_pos \<Rightarrow>
               (case true_div (total_points s) (rankings_received s) of
                  Inl e \<Rightarrow> Inl e
                | Inr avg_pts \<Rightarrow>
                    Inr (s\<lparr>average_position := Some avg_pos,
                           average_points := Some avg_pts,
                           position_history := None\<rparr>))))"

fun build_leaderboard :: "('k \<times> 'l scores) list \<Rightarrow> 'l scores list \<Rightarrow> error + 'l scores list" where
  "build_leaderboard [] board = Inr board"
| "build_leaderboard ((label, s) # rest) board =
     (if rankings_received s > 0
      then (case finish_entry s of
              Inl e \<Rightarrow> Inl e
            | Inr s' \<Rightarrow> build_leaderboard rest (board @ [s']))
      else build_leaderboard rest board)"

definition empty_tally :: "('k, 'l) tally" where
  "empty_tally = \<lparr>model_scores = [], total_conversations = 0, total_rankings = 0\<rparr>"

text \<open>\<^verbatim>\<open>leaderboard.sort(key=lambda x: x["total_points"], reverse=True)\<close>: Python's sort is
  stable, also with \<^verbatim>\<open>reverse=True\<close>; so is \<open>sort_key\<close> on the negated key.\<close>

definition sort_leaderboard :: "'l scores list \<Rightarrow> 'l scores list" where
  "sort_leaderboard board = sort_key (\<lambda>x. - total_points x) board"

text \<open>The argument is the listing of \<^verbatim>\<open>DATA_DIR\<close>, in the order of \<^verbatim>\<open>os.listdir\<close>.\<close>

definition get_overall_scores :: "(string \<times> conversation) list \<Rightarrow> error + string overall_scores" where
  "get_overall_scores dir =
     (let st = foldl process_file empty_tally dir
      in case build_leaderboard (model_scores st) [] of
           Inl e \<Rightarrow> Inl e
         | Inr board \<Rightarrow>
             Inr \<lparr>leaderboard = sort_leaderboard board,
                  total_conversations_analyzed = total_conversations st,
                  total_rankings_processed = total_rankings st\<rparr>)"

subsection \<open>get\_overall\_scores on any JSON value\<close>

text \<open>
  The same function on what \<^verbatim>\<open>json.load\<close> returns. The Python primitives it applies:
  \<^verbatim>\<open>x.get(key, default)\<close>, which only a dictionary has (the last member of a repeated
  name is the one \<^verbatim>\<open>json.load\<close> keeps); the truth value of \<^verbatim>\<open>not x\<close> and \<^verbatim>\<open>if x\<close>;
  iteration, over the elements of a list, the keys of a dictionary in the order of their
  first appearance, or the characters of a string; \<^verbatim>\<open>len\<close>; and the use of a value as a
  dictionary key, which hashes it: lists and dictionaries raise, and \<^verbatim>\<open>True\<close> and
  \<^verbatim>\<open>False\<close> are the keys \<open>1\<close> and \<open>0\<close>.
\<close>

definition py_get :: "json \<Rightarrow> string \<Rightarrow> json \<Rightarrow> error + json" where
  "py_get x key dflt =
     (case x of
        JDict kvs \<Rightarrow> Inr (case map_of (rev kvs) key of None \<Rightarrow> dflt | Some v \<Rightarrow> v)
      | _ \<Rightarrow> Inl AttributeError)"

definition dict_keys :: "(string \<times> json) list \<Rightarrow> string list" where
  "dict_keys kvs = rev (remdups (rev (map fst kvs)))"

fun truthy :: "json \<Rightarrow> bool" where
  "truthy JNull = False"
| "truthy (JBool b) = b"
| "truthy (JInt i) = (i \<noteq> 0)"
| "truthy (JStr s) = (s \<noteq> [])"
| "truthy (JList xs) = (xs \<noteq> [])"
| "truthy (JDict kvs) = (kvs \<noteq> [])"

fun py_iter :: "json \<Rightarrow> error + json list" where
  "py_iter (JList xs) = Inr xs"
| "py_iter (JDict kvs) = Inr (map JStr (dict_keys kvs))"
| "py_iter (JStr s) = Inr (map (\<lambda>c. JStr [c]) s)"
| "py_iter JNull = Inl TypeError"
| "py_iter (JBool b) = Inl TypeError"
| "py_iter (JInt i) = Inl TypeError"

fun py_len :: "json \<Rightarrow> error + int" where
  "py_len (JList xs) = Inr (int (length xs))"
| "py_len (JDict kvs) = Inr (int (length (dict_keys kvs)))"
| "py_len (JStr s) = Inr (int (length s))"
| "py_len JNull = Inl TypeError"
| "py_len (JBool b) = Inl TypeError"
| "py_len (JInt i) = Inl TypeError"

fun dict_key :: "json \<Rightarrow> error + json" where
  "dict_key JNull = Inr JNull"
| "dict_key (JBool b) = Inr (JInt (if b then 1 else 0))"
| "dict_key (JInt i) = Inr (JInt i)"
| "dict_key (JStr s) = Inr (JStr s)"
| "dict_key (JList xs) = Inl TypeError"
| "dict_key (JDict kvs) = Inl TypeError"

text \<open>A \<^verbatim>\<open>for\<close> loop whose body may raise: the first exception ends it.\<close>

fun for_each :: "('s \<Rightarrow> 'a \<Rightarrow> error + 's) \<Rightarrow> 's \<Rightarrow> 'a list \<Rightarrow> error + 's" where
  "for_each body s [] = Inr s"
| "for_each body s (x # xs) =
     (case body s x of Inl e \<Rightarrow> Inl e | Inr s' \<Rightarrow> for_each body s' xs)"

text \<open>The body of the innermost loop. The entry is found under the hashed label and
  keeps, as \<^verbatim>\<open>"model"\<close>, the label that created it.\<close>

definition credit_json ::
  "int \<Rightarrow> (json \<times> json scores) list \<Rightarrow> nat \<times> json \<Rightarrow> error + (json \<times> json scores) list" where
  "credit_json num_models ms pl =
     (case pl of (position, ranked_label) \<Rightarrow>
        let points = num_models - int position
        in case dict_key ranked_label of
             Inl e \<Rightarrow> Inl e
           | Inr k \<Rightarrow>
               Inr (AList.map_entry k (bump points position)
                      (if map_of ms k = None
                       then ms @ [(k, new_entry ranked_label)] else ms)))"

definition process_ranking_json ::
  "int \<Rightarrow> (json, json) tally \<Rightarrow> json \<Rightarrow> error + (json, json) tally" where
  "process_ranking_json num_models st ranking_result =
     (case py_get ranking_result ''model'' (JStr ''unknown'') of
        Inl e \<Rightarrow> Inl e
      | Inr ranker \<Rightarrow>
     (case py_get ranking_result ''parsed_ranking'' (JList []) of
        Inl e \<Rightarrow> Inl e
      | Inr ranking \<Rightarrow>
          if \<not> truthy ranking then Inr st
          else (case py_iter ranking of
                  Inl e \<Rightarrow> Inl e
                | Inr labels \<Rightarrow>
                    (case for_each (credit_json num_models) (model_scores st)
                            (enumerate 0 labels) of
                       Inl e \<Rightarrow> Inl e
                     | Inr ms \<Rightarrow>
                         Inr (st\<lparr>total_rankings := total_rankings st + 1,
                                model_scores := ms\<rparr>)))))"

definition process_message_json ::
  "(json, json) tally \<Rightarrow> json \<Rightarrow> error + (json, json) tally" where
  "process_message_json st message =
     (case py_get message ''role'' JNull of
        Inl e \<Rightarrow> Inl e
      | Inr r \<Rightarrow>
          if r \<noteq> JStr ''assistant'' then Inr st
          else (case py_get message ''stage2'' (JList []) of
                  Inl e \<Rightarrow> Inl e
                | Inr rankings \<Rightarrow>
                    if \<not> truthy rankings then Inr st
                    else (case py_len rankings of
                            Inl e \<Rightarrow> Inl e
                          | Inr num_models \<Rightarrow>
                              (case py_iter rankings of
                                 Inl e \<Rightarrow> Inl e
                               | Inr rs \<Rightarrow>
                                   for_each (process_ranking_json num_models)
                                     (st\<lparr>total_conversations := total_conversations st + 1\<rparr>)
                                     rs))))"

definition process_file_json ::
  "(json, json) tally \<Rightarrow> string \<times> json \<Rightarrow> error + (json, json) tally" where
  "process_file_json st entry =
     (case entry of (filename, data) \<Rightarrow>
        if \<not> endswith filename ''.json'' then Inr st
        else (case py_get data ''archived'' (JBool False) of
                Inl e \<Rightarrow> Inl e
              | Inr flag \<Rightarrow>
                  if truthy flag then Inr st
                  else (case py_get data ''messages'' (JList []) of
                          Inl e \<Rightarrow> Inl e
                        | Inr ms \<Rightarrow>
                            (case py_iter ms of
                               Inl e \<Rightarrow> Inl e
                             | Inr msgs \<Rightarrow> for_each process_message_json st msgs))))"

definition get_overall_scores_json :: "(string \<times> json) list \<Rightarrow> error + json overall_scores" where
  "get_overall_scores_json dir =
     (case for_each process_file_json empty_tally dir of
        Inl e \<Rightarrow> Inl e
      | Inr st \<Rightarrow>
          (case build_leaderboard (model_scores st) [] of
             Inl e \<Rightarrow> Inl e
           | Inr board \<Rightarrow>
               Inr \<lparr>leaderboard = sort_leaderboard board,
                    total_conversations_analyzed = total_conversations st,
                    total_rankings_processed = total_rankings st\<rparr>))"

subsection \<open>json.dump and json.load\<close>

text \<open>
  The conversion table of the \<^verbatim>\<open>json\<close> module. Writing turns a tuple into an array and
  a dictionary key into a string (\<^verbatim>\<open>str\<close> of an integer key); reading builds a
  dictionary by assigning the members in order, so a repeated name keeps its first place
  and its last value.
\<close>

function str_nat :: "nat \<Rightarrow> string" where
  "str_nat n =
     (if n < 10 then [char_of (48 + n)]
      else str_nat (n div 10) @ [char_of (48 + n mod 10)])"
  by pat_completeness auto
termination
  by (relation "measure id") auto

declare str_nat.simps [simp del]

definition str_int :: "int \<Rightarrow> string" where
  "str_int i = (if i < 0 then CHR ''-'' # str_nat (nat (- i)) else str_nat (nat i))"

fun key_text :: "pykey \<Rightarrow> string" where
  "key_text (KStr s) = s"
| "key_text (KInt i) = str_int i"

primrec json_dump :: "pyval \<Rightarrow> json" where
  "json_dump PNone = JNull"
| "json_dump (PBool b) = JBool b"
| "json_dump (PInt i) = JInt i"
| "json_dump (PStr s) = JStr s"
| "json_dump (PList xs) = JList (map json_dump xs)"
| "json_dump (PTuple xs) = JList (map json_dump xs)"
| "json_dump (PDict kvs) = JDict (map (map_prod key_text json_dump) kvs)"

definition assign :: "('k \<times> 'v) list \<Rightarrow> 'k \<times> 'v \<Rightarrow> ('k \<times> 'v) list" where
  "assign d kv = AList.update (fst kv) (snd kv) d"

primrec json_load :: "json \<Rightarrow> pyval" where
  "json_load JNull = PNone"
| "json_load (JBool b) = PBool b"
| "json_load (JInt i) = PInt i"
| "json_load (JStr s) = PStr s"
| "json_load (JList xs) = PList (map json_load xs)"
| "json_load (JDict kvs) = PDict (foldl assign [] (map (map_prod KStr json_load) kvs))"

text \<open>A document of the data model as the JSON that \<^verbatim>\<open>json.dump\<close> writes for it. A
  missing key is a missing member.\<close>

definition member :: "string \<Rightarrow> json option \<Rightarrow> (string \<times> json) list" where
  "member key v = (case v of None \<Rightarrow> [] | Some x \<Rightarrow> [(key, x)])"

definition enc_ranking :: "ranking_result \<Rightarrow> json" where
  "enc_ranking r =
     JDict (member ''model'' (map_option JStr (ranker_model r))
          @ member ''parsed_ranking''
              (map_option (\<lambda>labels. JList (map JStr labels)) (parsed_ranking r)))"

definition enc_message :: "message \<Rightarrow> json" where
  "enc_message m =
     JDict (member ''role'' (map_option JStr (role m))
          @ member ''content'' (map_option JStr (content m))
          @ member ''stage1'' (map_option json_dump (stage1 m))
          @ member ''stage2'' (map_option (\<lambda>rs. JList (map enc_ranking rs)) (stage2 m))
          @ member ''stage3'' (map_option json_dump (stage3 m)))"

definition enc_conversation :: "conversation \<Rightarrow> json" where
  "enc_conversation c =
     JDict ([(''id'', JStr (conv_id c)), (''created_at'', JStr (created_at c))]
          @ member ''title'' (map_option JStr (title c))
          @ member ''archived'' (map_option JBool (archived c))
          @ member ''messages'' (map_option (\<lambda>ms. JList (map enc_message ms)) (messages c)))"

definition enc_dir :: "(string \<times> conversation) list \<Rightarrow> (string \<times> json) list" where
  "enc_dir dir = map (\<lambda>e. (fst e, enc_conversation (snd e))) dir"

text \<open>The result on strings as a result on JSON labels.\<close>

definition enc_scores :: "string scores \<Rightarrow> json scores" where
  "enc_scores s =
     \<lparr>model = JStr (model s), total_points = total_points s,
      rankings_received = rankings_received s, first_places = first_places s,
      second_places = second_places s, third_places = third_places s,
      position_history = position_history s, average_position = average_position s,
      average_points = average_points s\<rparr>"

definition enc_tally :: "(string, string) tally \<Rightarrow> (json, json) tally" where
  "enc_tally st =
     \<lparr>model_scores = map (map_prod JStr enc_scores) (model_scores st),
      total_conversations = total_conversations st,
      total_rankings = total_rankings st\<rparr>"

definition enc_overall :: "string overall_scores \<Rightarrow> json overall_scores" where
  "enc_overall r =
     \<lparr>leaderboard = map enc_scores (leaderboard r),
      total_conversations_analyzed = total_conversations_analyzed r,
      total_rankings_processed = total_rankings_processed r\<rparr>"

text \<open>What comes back when a conversation is written and read: the payloads of its
  messages go through the conversion table, every other field is JSON as it stands.\<close>

definition reload :: "pyval \<Rightarrow> pyval" where
  "reload v = json_load (json_dump v)"

definition reload_message :: "message \<Rightarrow> message" where
  "reload_message m =
     m\<lparr>stage1 := map_option reload (stage1 m), stage3 := map_option reload (stage3 m)\<rparr>"

definition reload_conversation :: "conversation \<Rightarrow> conversation" where
  "reload_conversation c = c\<lparr>messages := map_option (map reload_message) (messages c)\<rparr>"

subsection \<open>The conversation files\<close>

text \<open>
  The state of the file store: for each path the conversation that \<^verbatim>\<open>json.load\<close>
  returns for the file there, and the paths at which \<^verbatim>\<open>open(path, 'w')\<close> succeeds (the
  directory exists, the name is acceptable to the system). \<^verbatim>\<open>DATA_DIR\<close> comes from the
  configuration module and is a parameter. An operation returns what the call returns
  (\<open>Inl\<close> for a raised exception) together with the store it leaves behind.
\<close>

record files =
  documents :: "string \<rightharpoonup> conversation"
  writable :: "string set"

text \<open>\<^verbatim>\<open>os.path.join(a, b)\<close> on POSIX.\<close>

definition os_path_join :: "string \<Rightarrow> string \<Rightarrow> string" where
  "os_path_join a b =
     (if take 1 b = ''/'' then b
      else if a = [] \<or> drop (length a - 1) a = ''/'' then a @ b
      else a @ ''/'' @ b)"

definition get_conversation_path :: "string \<Rightarrow> string \<Rightarrow> string" where
  "get_conversation_path DATA_DIR conversation_id =
     os_path_join DATA_DIR (conversation_id @ ''.json'')"

definition get_conversation :: "string \<Rightarrow> string \<Rightarrow> files \<Rightarrow> conversation option" where
  "get_conversation DATA_DIR conversation_id fs =
     documents fs (get_conversation_path DATA_DIR conversation_id)"

definition save_conversation :: "string \<Rightarrow> conversation \<Rightarrow> files \<Rightarrow> (error + unit) \<times> files" where
  "save_conversation DATA_DIR conversation fs =
     (let path = get_conversation_path DATA_DIR (conv_id conversation)
      in if path \<in> writable fs
         then (Inr (),
               fs\<lparr>documents := (documents fs)(path \<mapsto> reload_conversation conversation)\<rparr>)
         else (Inl (OSError path), fs))"

definition not_found :: "string \<Rightarrow> error" where
  "not_found conversation_id = ValueError (''Conversation '' @ conversation_id @ '' not found'')"

text \<open>\<^verbatim>\<open>conversation["messages"]\<close> raises \<^verbatim>\<open>KeyError\<close> when the document has no
  such key; \<^verbatim>\<open>.append\<close> and \<^verbatim>\<open>save_conversation\<close> follow otherwise.\<close>

definition add_user_message :: "string \<Rightarrow> string \<Rightarrow> string \<Rightarrow> files \<Rightarrow> (error + unit) \<times> files" where
  "add_user_message DATA_DIR conversation_id text fs =
     (case get_conversation DATA_DIR conversation_id fs of
        None \<Rightarrow> (Inl (not_found conversation_id), fs)
      | Some conversation \<Rightarrow>
          (case messages conversation of
             None \<Rightarrow> (Inl (KeyError ''messages''), fs)
           | Some ms \<Rightarrow>
               save_conversation DATA_DIR
                 (conversation\<lparr>messages := Some (ms @
                    [\<lparr>role = Some ''user'', content = Some text,
                      stage1 = None, stage2 = None, stage3 = None\<rparr>])\<rparr>) fs))"

definition add_assistant_message ::
  "string \<Rightarrow> string \<Rightarrow> pyval \<Rightarrow> ranking_result list \<Rightarrow> pyval \<Rightarrow> files \<Rightarrow> (error + unit) \<times> files" where
  "add_assistant_message DATA_DIR conversation_id s1 s2 s3 fs =
     (case get_conversation DATA_DIR conversation_id fs of
        None \<Rightarrow> (Inl (not_found conversation_id), fs)
      | Some conversation \<Rightarrow>
          (case messages conversation of
             None \<Rightarrow> (Inl (KeyError ''messages''), fs)
           | Some ms \<Rightarrow>
               save_conversation DATA_DIR
                 (conversation\<lparr>messages := Some (ms @
                    [\<lparr>role = Some ''assistant'', content = None,
                      stage1 = Some s1, stage2 = Some s2, stage3 = Some s3\<rparr>])\<rparr>) fs))"

definition update_conversation_title :: "string \<Rightarrow> string \<Rightarrow> string \<Rightarrow> files \<Rightarrow> (error + unit) \<times> files" where
  "update_conversation_title DATA_DIR conversation_id new_title fs =
     (case get_conversation DATA_DIR conversation_id fs of
        None \<Rightarrow> (Inl (not_found conversation_id), fs)
      | Some conversation \<Rightarrow>
          save_conversation DATA_DIR (conversation\<lparr>title := Some new_title\<rparr>) fs)"

definition archive_conversation :: "string \<Rightarrow> string \<Rightarrow> bool \<Rightarrow> files \<Rightarrow> (error + unit) \<times> files" where
  "archive_conversation DATA_DIR conversation_id flag fs =
     (case get_conversation DATA_DIR conversation_id fs of
        None \<Rightarrow> (Inl (not_found conversation_id), fs)
      | Some conversation \<Rightarrow>
          save_conversation DATA_DIR (conversation\<lparr>archived := Some flag\<rparr>) fs)"

definition delete_conversation :: "string \<Rightarrow> string \<Rightarrow> files \<Rightarrow> (error + unit) \<times> files" where
  "delete_conversation DATA_DIR conversation_id fs =
     (let path = get_conversation_path DATA_DIR conversation_id
      in if documents fs path \<noteq> None
         then (Inr (), fs\<lparr>documents := (documents fs)(path := None)\<rparr>)
         else (Inr (), fs))"

subsection \<open>What the leaderboard is specified to hold\<close>

text \<open>
  The definitions of this subsection follow the specification's wording, not the loops:
  the non-archived stored conversations, their messages, and every occurrence of a label
  in a parsed ranking, recorded as the length of the \<^verbatim>\<open>stage2\<close> it sits in, its
  0-indexed position and the label.
\<close>

type_synonym occurrence = "int \<times> nat \<times> string"

definition occ_label :: "occurrence \<Rightarrow> string" where
  "occ_label oc = snd (snd oc)"

definition occ_points :: "occurrence \<Rightarrow> int" where
  "occ_points oc = fst oc - int (fst (snd oc))"

definition occ_place :: "occurrence \<Rightarrow> int" where
  "occ_place oc = int (fst (snd oc)) + 1"

definition is_archived :: "conversation \<Rightarrow> bool" where
  "is_archived c \<longleftrightarrow> archived c = Some True"

definition active_conversations :: "(string \<times> conversation) list \<Rightarrow> conversation list" where
  "active_conversations dir =
     map snd (filter (\<lambda>e. endswith (fst e) ''.json'' \<and> \<not> is_archived (snd e)) dir)"

definition assistant_messages :: "(string \<times> conversation) list \<Rightarrow> message list" where
  "assistant_messages dir =
     filter (\<lambda>m. role m = Some ''assistant'')
       (concat (map (\<lambda>c. dict_get (messages c) []) (active_conversations dir)))"

definition ranking_occurrences :: "int \<Rightarrow> ranking_result \<Rightarrow> occurrence list" where
  "ranking_occurrences n r =
     map (\<lambda>pl. (n, fst pl, snd pl)) (enumerate 0 (dict_get (parsed_ranking r) []))"

definition message_occurrences :: "message \<Rightarrow> occurrence list" where
  "message_occurrences m =
     (let rankings = dict_get (stage2 m) []
      in concat (map (ranking_occurrences (int (length rankings))) rankings))"

definition occurrences :: "(string \<times> conversation) list \<Rightarrow> occurrence list" where
  "occurrences dir = concat (map message_occurrences (assistant_messages dir))"

definition occurrences_of :: "string \<Rightarrow> (string \<times> conversation) list \<Rightarrow> occurrence list" where
  "occurrences_of L dir = filter (\<lambda>oc. occ_label oc = L) (occurrences dir)"

text \<open>The assistant messages with a non-empty \<^verbatim>\<open>stage2\<close>, and the ranking results with a
  non-empty \<^verbatim>\<open>parsed_ranking\<close> among them.\<close>

definition ranked_messages :: "(string \<times> conversation) list \<Rightarrow> message list" where
  "ranked_messages dir = filter (\<lambda>m. dict_get (stage2 m) [] \<noteq> []) (assistant_messages dir)"

definition nonempty_rankings :: "(string \<times> conversation) list \<Rightarrow> ranking_result list" where
  "nonempty_rankings dir =
     filter (\<lambda>r. dict_get (parsed_ranking r) [] \<noteq> [])
       (concat (map (\<lambda>m. dict_get (stage2 m) []) (ranked_messages dir)))"

text \<open>The entry of a label, replayed over its occurrences alone, and the entry as the
  final loop leaves it.\<close>

definition replay :: "'l scores \<Rightarrow> occurrence list \<Rightarrow> 'l scores" where
  "replay s ocs = foldl (\<lambda>acc oc. bump (occ_points oc) (fst (snd oc)) acc) s ocs"

definition finished :: "'l scores \<Rightarrow> 'l scores" where
  "finished s =
     s\<lparr>average_position :=
          Some (nearest_double (sum_list (dict_get (position_history s) []))
                  (int (length (dict_get (position_history s) [])))),
       average_points := Some (nearest_double (total_points s) (rankings_received s)),
       position_history := None\<rparr>"

text \<open>A payload that JSON holds as it is: no tuple, and dictionaries with string keys,
  each once.\<close>

fun is_str_key :: "pykey \<Rightarrow> bool" where
  "is_str_key (KStr s) = True"
| "is_str_key (KInt i) = False"

primrec native :: "pyval \<Rightarrow> bool" where
  "native PNone = True"
| "native (PBool b) = True"
| "native (PInt i) = True"
| "native (PStr s) = True"
| "native (PList xs) = list_all id (map native xs)"
| "native (PTuple xs) = False"
| "native (PDict kvs) =
     (list_all (\<lambda>kv. is_str_key (fst kv) \<and> snd kv) (map (map_prod id native) kvs)
      \<and> distinct (map fst kvs))"

definition native_message :: "message \<Rightarrow> bool" where
  "native_message m \<longleftrightarrow>
     (case stage1 m of None \<Rightarrow> True | Some v \<Rightarrow> native v)
     \<and> (case stage3 m of None \<Rightarrow> True | Some v \<Rightarrow> native v)"

subsection \<open>Auxiliary definitions\<close>

text \<open>
  Names used in the proofs only: one step of the innermost loop on an occurrence, the
  combined effect of a loop on the three local variables, the assistant messages of one
  document, the dictionary when the scan ends, the entry a label then has, and the
  condition under which the final loop can divide.
\<close>

definition credit_occ ::
  "(string \<times> string scores) list \<Rightarrow> occurrence \<Rightarrow> (string \<times> string scores) list" where
  "credit_occ ms oc = credit (fst oc) ms (snd oc)"

definition advance ::
  "(string, string) tally \<Rightarrow> occurrence list \<Rightarrow> int \<Rightarrow> int \<Rightarrow> (string, string) tally" where
  "advance st ocs a b =
     st\<lparr>model_scores := foldl credit_occ (model_scores st) ocs,
        total_conversations := total_conversations st + a,
        total_rankings := total_rankings st + b\<rparr>"

definition conv_messages :: "conversation \<Rightarrow> message list" where
  "conv_messages c = filter (\<lambda>m. role m = Some ''assistant'') (dict_get (messages c) [])"

definition ready :: "'l scores \<Rightarrow> bool" where
  "ready s \<longleftrightarrow> rankings_received s > 0 \<and> dict_get (position_history s) [] \<noteq> []
                \<and> position_history s \<noteq> None"

definition final_scores :: "(string \<times> conversation) list \<Rightarrow> (string \<times> string scores) list" where
  "final_scores dir = foldl credit_occ [] (occurrences dir)"

definition entry_for :: "string \<Rightarrow> (string \<times> conversation) list \<Rightarrow> string scores" where
  "entry_for L dir = replay (new_entry L) (occurrences_of L dir)"

subsection \<open>Sample inputs\<close>

text \<open>
  Concrete directories, conversations and stores on which the statements below are
  evaluated: the specification's scenario (one judge, two ranked labels); one judge and
  three ranked labels; two judges; three judges, where a label collects 8 points from 3
  rankings; a directory that mixes a user message, two rankings of the same labels in
  different orders, a ranking result without \<^verbatim>\<open>parsed_ranking\<close>, an empty
  \<^verbatim>\<open>stage2\<close>, an archived conversation and a file that is not \<^verbatim>\<open>.json\<close>; a store
  with nothing in it where every path can be written; a conversation whose payloads are
  plain JSON and one with a tuple under an integer key, with what is read back for it;
  and two JSON documents that do not follow the data model.
\<close>

definition judged :: "string \<Rightarrow> string list \<Rightarrow> ranking_result" where
  "judged judge labels = \<lparr>ranker_model = Some judge, parsed_ranking = Some labels\<rparr>"

definition assistant_turn :: "ranking_result list \<Rightarrow> message" where
  "assistant_turn rankings =
     \<lparr>role = Some ''assistant'', content = None,
      stage1 = None, stage2 = Some rankings, stage3 = None\<rparr>"

definition user_turn :: "string \<Rightarrow> message" where
  "user_turn text =
     \<lparr>role = Some ''user'', content = Some text,
      stage1 = None, stage2 = None, stage3 = None\<rparr>"

definition scenario_dir :: "(string \<times> conversation) list" where
  "scenario_dir =
     [(''c1.json'',
       \<lparr>conv_id = ''c1'', created_at = ''2024-01-01T00:00:00'', title = Some ''New Conversation'',
        archived = None,
        messages = Some [assistant_turn [judged ''judgeA'' [''m1'', ''m2'']]]\<rparr>)]"

definition overlong_dir :: "(string \<times> conversation) list" where
  "overlong_dir =
     [(''c2.json'',
       \<lparr>conv_id = ''c2'', created_at = ''2024-01-01T00:00:00'', title = Some ''New Conversation'',
        archived = None,
        messages = Some [assistant_turn [judged ''judgeA'' [''m1'', ''m2'', ''m3'']]]\<rparr>)]"

definition two_judge_dir :: "(string \<times> conversation) list" where
  "two_judge_dir =
     [(''c3.json'',
       \<lparr>conv_id = ''c3'', created_at = ''2024-01-01T00:00:00'', title = Some ''New Conversation'',
        archived = None,
        messages = Some
          [assistant_turn [judged ''judgeA'' [''m1'', ''m2'', ''m3''],
                           judged ''judgeB'' [''m2'', ''m1'']]]\<rparr>)]"

definition thirds_dir :: "(string \<times> conversation) list" where
  "thirds_dir =
     [(''c4.json'',
       \<lparr>conv_id = ''c4'', created_at = ''2024-01-01T00:00:00'', title = Some ''New Conversation'',
        archived = None,
        messages = Some
          [assistant_turn [judged ''j1'' [''m''], judged ''j2'' [''m''],
                           judged ''j3'' [''x'', ''m'']]]\<rparr>)]"

definition sample_dir :: "(string \<times> conversation) list" where
  "sample_dir =
     [(''a.json'',
       \<lparr>conv_id = ''a'', created_at = ''2024-01-01T00:00:00'', title = Some ''First'',
        archived = None,
        messages = Some
          [user_turn ''hello'',
           assistant_turn
             [judged ''j1'' [''m1'', ''m2'', ''m3''],
              judged ''j2'' [''m2'', ''m1''],
              \<lparr>ranker_model = Some ''j3'', parsed_ranking = None\<rparr>],
           assistant_turn [],
           assistant_turn [judged ''j1'' [''m3'']]]\<rparr>),
      (''b.json'',
       \<lparr>conv_id = ''b'', created_at = ''2024-01-02T00:00:00'', title = Some ''Second'',
        archived = Some True,
        messages = Some [assistant_turn [judged ''j1'' [''m9'', ''m1'']]]\<rparr>),
      (''notes.txt'',
       \<lparr>conv_id = ''n'', created_at = ''2024-01-03T00:00:00'', title = None,
        archived = None,
        messages = Some [assistant_turn [judged ''j1'' [''m8'']]]\<rparr>)]"

definition no_files :: files where
  "no_files = \<lparr>documents = Map.empty, writable = UNIV\<rparr>"

definition sample_store :: files where
  "sample_store = snd (save_conversation ''data'' (snd (hd sample_dir)) no_files)"

definition native_conv :: conversation where
  "native_conv =
     \<lparr>conv_id = ''n1'', created_at = ''2024-01-01T00:00:00'', title = Some ''New Conversation'',
      archived = None,
      messages = Some
        [user_turn ''hello'',
         \<lparr>role = Some ''assistant'', content = None,
          stage1 = Some (PList [PDict [(KStr ''model'', PStr ''m1''),
                                       (KStr ''response'', PStr ''hi'')]]),
          stage2 = Some [judged ''m1'' [''Response A'']],
          stage3 = Some (PDict [(KStr ''model'', PStr ''m1''),
                                (KStr ''tokens'', PList [PInt 1, PInt 2])])\<rparr>]\<rparr>"

definition tuple_conv :: conversation where
  "tuple_conv =
     \<lparr>conv_id = ''t1'', created_at = ''2024-01-01T00:00:00'', title = Some ''New Conversation'',
      archived = None,
      messages = Some
        [\<lparr>role = Some ''assistant'', content = None,
          stage1 = Some (PList [PDict [(KStr ''model'', PStr ''m1''),
                                       (KInt 1, PTuple [PInt 1, PInt 2])]]),
          stage2 = Some [judged ''m1'' [''Response A'']],
          stage3 = None\<rparr>]\<rparr>"

definition listed_conv :: conversation where
  "listed_conv =
     \<lparr>conv_id = ''t1'', created_at = ''2024-01-01T00:00:00'', title = Some ''New Conversation'',
      archived = None,
      messages = Some
        [\<lparr>role = Some ''assistant'', content = None,
          stage1 = Some (PList [PDict [(KStr ''model'', PStr ''m1''),
                                       (KStr ''1'', PList [PInt 1, PInt 2])]]),
          stage2 = Some [judged ''m1'' [''Response A'']],
          stage3 = None\<rparr>]\<rparr>"

definition null_messages_dir :: "(string \<times> json) list" where
  "null_messages_dir =
     [(''c5.json'', JDict [(''id'', JStr ''c5''), (''messages'', JNull)])]"

definition null_ranking_dir :: "(string \<times> json) list" where
  "null_ranking_dir =
     [(''c6.json'',
       JDict [(''id'', JStr ''c6''),
              (''messages'',
               JList [JDict [(''role'', JStr ''assistant''), (''stage2'', JList [JNull])]])])]"

section \<open>Properties of the definitions\<close>

lemma map_fst_map_entry: "map fst (AList.map_entry k f xs) = map fst xs"
  by (induction xs) auto

lemma map_of_credit:
  "map_of (credit n ms (p, l)) k =
     (if k = l then Some (bump (n - int p) p (dict_get (map_of ms l) (new_entry l)))
      else map_of ms k)"
  by (auto simp: credit_def Let_def map_of_map_entry dict_get_def map_add_def
           split: option.splits)

lemma keys_credit:
  "map fst (credit n ms (p, l)) =
     (if l \<in> fst ` set ms then map fst ms else map fst ms @ [l])"
  by (auto simp: credit_def Let_def map_fst_map_entry map_of_eq_None_iff)

lemma distinct_credit:
  "distinct (map fst ms) \<Longrightarrow> distinct (map fst (credit n ms pl))"
  by (cases pl) (auto simp: keys_credit)

lemma distinct_foldl_credit_occ:
  "distinct (map fst ms) \<Longrightarrow> distinct (map fst (foldl credit_occ ms ocs))"
  by (induction ocs arbitrary: ms) (simp_all add: credit_occ_def distinct_credit)

lemma replay_Nil: "replay s [] = s"
  by (simp add: replay_def)

lemma replay_Cons:
  "replay s (oc # ocs) = replay (bump (occ_points oc) (fst (snd oc)) s) ocs"
  by (simp add: replay_def)

lemma credit_occ_simp: "credit_occ ms (n, p, l) = credit n ms (p, l)"
  by (simp add: credit_occ_def)

lemma map_of_foldl_credit_occ:
  "map_of (foldl credit_occ ms ocs) L =
     (if filter (\<lambda>oc. occ_label oc = L) ocs = [] then map_of ms L
      else Some (replay (dict_get (map_of ms L) (new_entry L))
                   (filter (\<lambda>oc. occ_label oc = L) ocs)))"
proof (induction ocs arbitrary: ms)
  case Nil
  then show ?case by simp
next
  case (Cons oc ocs)
  obtain n p l where oc: "oc = (n, p, l)" by (cases oc) auto
  have step: "foldl credit_occ ms (oc # ocs) = foldl credit_occ (credit n ms (p, l)) ocs"
    by (simp add: oc credit_occ_simp)
  show ?case
  proof (cases "l = L")
    case True
    then show ?thesis
      unfolding step Cons.IH
      by (simp add: oc map_of_credit occ_label_def replay_Cons replay_Nil occ_points_def dict_get_def)
  next
    case False
    then show ?thesis
      unfolding step Cons.IH
      by (simp add: oc map_of_credit occ_label_def)
  qed
qed

lemma replay_snoc:
  "replay s (ocs @ [oc]) = bump (occ_points oc) (fst (snd oc)) (replay s ocs)"
  by (simp add: replay_def)

lemma bump_fields:
  "model (bump pts p s) = model s"
  "total_points (bump pts p s) = total_points s + pts"
  "rankings_received (bump pts p s) = rankings_received s + 1"
  "position_history (bump pts p s) = map_option (\<lambda>h. h @ [int p + 1]) (position_history s)"
  "average_position (bump pts p s) = average_position s"
  "average_points (bump pts p s) = average_points s"
  by (simp_all add: bump_def Let_def)

lemma bump_places:
  "first_places (bump pts p s) + second_places (bump pts p s) + third_places (bump pts p s)
     \<le> first_places s + second_places s + third_places s + 1"
  "first_places s \<le> first_places (bump pts p s)"
  "second_places s \<le> second_places (bump pts p s)"
  "third_places s \<le> third_places (bump pts p s)"
  by (simp_all add: bump_def Let_def)

lemma replay_model: "model (replay s ocs) = model s"
  by (induction ocs rule: rev_induct) (simp_all add: replay_Nil replay_snoc bump_fields)

lemma replay_total_points:
  "total_points (replay s ocs) = total_points s + sum_list (map occ_points ocs)"
  by (induction ocs rule: rev_induct) (simp_all add: replay_Nil replay_snoc bump_fields)

lemma replay_rankings_received:
  "rankings_received (replay s ocs) = rankings_received s + int (length ocs)"
  by (induction ocs rule: rev_induct) (simp_all add: replay_Nil replay_snoc bump_fields)

lemma replay_position_history:
  "position_history (replay s ocs) =
     map_option (\<lambda>h. h @ map occ_place ocs) (position_history s)"
  by (induction ocs rule: rev_induct)
     (simp_all add: replay_Nil replay_snoc bump_fields occ_place_def option.map_comp o_def option.map_ident)

lemma replay_places:
  "first_places (replay s ocs) + second_places (replay s ocs) + third_places (replay s ocs)
     \<le> first_places s + second_places s + third_places s + int (length ocs)"
proof (induction ocs rule: rev_induct)
  case Nil
  then show ?case by (simp add: replay_Nil)
next
  case (snoc oc ocs)
  show ?case
    using snoc.IH bump_places(1) [of "occ_points oc" "fst (snd oc)" "replay s ocs"]
    by (simp add: replay_snoc)
qed

lemma advance_nothing: "advance st [] 0 0 = st"
  by (simp add: advance_def)

lemma advance_advance:
  "advance (advance st o1 a1 b1) o2 a2 b2 = advance st (o1 @ o2) (a1 + a2) (b1 + b2)"
  by (simp add: advance_def)

lemma foldl_advance:
  assumes "\<And>st x. f st x = advance st (oc x) (a x) (b x)"
  shows "foldl f st xs =
           advance st (concat (map oc xs)) (sum_list (map a xs)) (sum_list (map b xs))"
  by (induction xs arbitrary: st) (simp_all add: advance_nothing assms advance_advance)

lemma foldl_credit_enumerate:
  "foldl (credit n) ms (enumerate k xs) =
     foldl credit_occ ms (map (\<lambda>pl. (n, fst pl, snd pl)) (enumerate k xs))"
  by (simp add: foldl_map credit_occ_def)

lemma process_ranking_advance:
  "process_ranking n st r =
     advance st (ranking_occurrences n r) 0
       (if dict_get (parsed_ranking r) [] = [] then 0 else 1)"
  by (simp add: process_ranking_def Let_def advance_def ranking_occurrences_def
                foldl_credit_enumerate)

lemma sum_list_indicator:
  "sum_list (map (\<lambda>x. if P x then 0 else (1::int)) xs) = int (length (filter (\<lambda>x. \<not> P x) xs))"
  by (induction xs) simp_all

lemma process_message_advance:
  "process_message st m =
     advance st
       (if role m = Some ''assistant'' then message_occurrences m else [])
       (if role m = Some ''assistant'' \<and> dict_get (stage2 m) [] \<noteq> [] then 1 else 0)
       (if role m = Some ''assistant''
        then int (length (filter (\<lambda>r. dict_get (parsed_ranking r) [] \<noteq> []) (dict_get (stage2 m) [])))
        else 0)"
proof (cases "role m = Some ''assistant'' \<and> dict_get (stage2 m) [] \<noteq> []")
  case True
  let ?rs = "dict_get (stage2 m) []"
  let ?st = "st\<lparr>total_conversations := total_conversations st + 1\<rparr>"
  have st: "?st = advance st [] 1 0"
    by (simp add: advance_def)
  have "process_message st m = foldl (process_ranking (int (length ?rs))) ?st ?rs"
    using True by (simp add: process_message_def Let_def)
  also have "\<dots> = advance ?st (concat (map (ranking_occurrences (int (length ?rs))) ?rs))
                     (sum_list (map (\<lambda>r. 0) ?rs))
                     (sum_list (map (\<lambda>r. if dict_get (parsed_ranking r) [] = [] then 0 else 1) ?rs))"
    by (rule foldl_advance) (rule process_ranking_advance)
  finally show ?thesis
    using True
    by (simp add: st advance_advance message_occurrences_def Let_def sum_list_indicator)
next
  case False
  then show ?thesis
    by (auto simp: process_message_def Let_def advance_nothing message_occurrences_def)
qed

lemma concat_map_if:
  "concat (map (\<lambda>x. if P x then g x else []) xs) = concat (map g (filter P xs))"
  by (induction xs) simp_all

lemma sum_list_map_if:
  "sum_list (map (\<lambda>x. if P x then k x else (0::int)) xs) = sum_list (map k (filter P xs))"
  by (induction xs) simp_all

lemma sum_list_ones: "sum_list (map (\<lambda>x. 1::int) xs) = int (length xs)"
  by (induction xs) simp_all

lemma sum_list_length_concat:
  "sum_list (map (\<lambda>x. int (length (g x))) xs) = int (length (concat (map g xs)))"
  by (induction xs) simp_all

lemma dict_get_archived: "dict_get (archived c) False \<longleftrightarrow> is_archived c"
  by (cases "archived c") (simp_all add: dict_get_def is_archived_def)

lemma process_file_advance:
  "process_file st e =
     (if endswith (fst e) ''.json'' \<and> \<not> is_archived (snd e)
      then advance st
        (concat (map message_occurrences (conv_messages (snd e))))
        (int (length (filter (\<lambda>m. dict_get (stage2 m) [] \<noteq> []) (conv_messages (snd e)))))
        (int (length (filter (\<lambda>r. dict_get (parsed_ranking r) [] \<noteq> [])
               (concat (map (\<lambda>m. dict_get (stage2 m) []) (conv_messages (snd e)))))))
      else advance st [] 0 0)"
proof (cases "endswith (fst e) ''.json'' \<and> \<not> is_archived (snd e)")
  case True
  let ?ms = "dict_get (messages (snd e)) []"
  have "process_file st e = foldl process_message st ?ms"
    using True by (cases e) (simp add: process_file_def dict_get_archived)
  also have "\<dots> = advance st
      (concat (map (\<lambda>m. if role m = Some ''assistant'' then message_occurrences m else []) ?ms))
      (sum_list (map (\<lambda>m. if role m = Some ''assistant'' \<and> dict_get (stage2 m) [] \<noteq> [] then 1 else 0) ?ms))
      (sum_list (map (\<lambda>m. if role m = Some ''assistant''
        then int (length (filter (\<lambda>r. dict_get (parsed_ranking r) [] \<noteq> []) (dict_get (stage2 m) [])))
        else 0) ?ms))"
    by (rule foldl_advance) (rule process_message_advance)
  finally show ?thesis
    using True
    by (simp add: concat_map_if sum_list_map_if conv_messages_def sum_list_length_concat
                  filter_concat map_concat o_def sum_list_ones)
next
  case False
  then show ?thesis
    by (cases e) (auto simp: process_file_def dict_get_archived advance_nothing)
qed

lemma foldl_process_file:
  "foldl process_file st dir =
     advance st (occurrences dir) (int (length (ranked_messages dir)))
       (int (length (nonempty_rankings dir)))"
proof (induction dir arbitrary: st)
  case Nil
  then show ?case
    by (simp add: advance_nothing occurrences_def ranked_messages_def nonempty_rankings_def
                  assistant_messages_def active_conversations_def)
next
  case (Cons e dir)
  have step: "foldl process_file st (e # dir) =
      advance (process_file st e) (occurrences dir) (int (length (ranked_messages dir)))
        (int (length (nonempty_rankings dir)))"
    by (simp add: Cons.IH)
  show ?case
  proof (cases "endswith (fst e) ''.json'' \<and> \<not> is_archived (snd e)")
    case True
    then have act: "active_conversations (e # dir) = snd e # active_conversations dir"
      by (simp add: active_conversations_def)
    have msgs: "assistant_messages (e # dir) = conv_messages (snd e) @ assistant_messages dir"
      by (simp add: assistant_messages_def act conv_messages_def)
    have "occurrences (e # dir) =
            concat (map message_occurrences (conv_messages (snd e))) @ occurrences dir"
      and "ranked_messages (e # dir) =
            filter (\<lambda>m. dict_get (stage2 m) [] \<noteq> []) (conv_messages (snd e))
              @ ranked_messages dir"
      by (simp_all add: occurrences_def ranked_messages_def msgs)
    moreover have "nonempty_rankings (e # dir) =
            filter (\<lambda>r. dict_get (parsed_ranking r) [] \<noteq> [])
              (concat (map (\<lambda>m. dict_get (stage2 m) [])
                 (filter (\<lambda>m. dict_get (stage2 m) [] \<noteq> []) (conv_messages (snd e)))))
              @ nonempty_rankings dir"
      by (simp add: nonempty_rankings_def ranked_messages_def msgs)
    moreover have "concat (map (\<lambda>m. dict_get (stage2 m) [])
                 (filter (\<lambda>m. dict_get (stage2 m) [] \<noteq> []) ms))
            = concat (map (\<lambda>m. dict_get (stage2 m) []) ms)" for ms :: "message list"
      by (induction ms) simp_all
    ultimately show ?thesis
      unfolding step using True by (simp add: process_file_advance advance_advance)
  next
    case False
    then have act: "active_conversations (e # dir) = active_conversations dir"
      by (auto simp: active_conversations_def)
    have "occurrences (e # dir) = occurrences dir"
      and "ranked_messages (e # dir) = ranked_messages dir"
      and "nonempty_rankings (e # dir) = nonempty_rankings dir"
      by (simp_all add: occurrences_def ranked_messages_def nonempty_rankings_def
                        assistant_messages_def act)
    moreover have "process_file st e = st"
      using False by (auto simp: process_file_advance advance_nothing)
    ultimately show ?thesis
      unfolding step by simp
  qed
qed

lemma finish_entry_ready: "ready s \<Longrightarrow> finish_entry s = Inr (finished s)"
  by (cases "position_history s")
     (simp_all add: ready_def finish_entry_def true_div_def finished_def dict_get_def)

lemma build_leaderboard_ready:
  "\<forall>kv \<in> set ms. ready (snd kv) \<Longrightarrow>
     build_leaderboard ms board = Inr (board @ map (\<lambda>kv. finished (snd kv)) ms)"
proof (induction ms arbitrary: board)
  case Nil
  then show ?case by simp
next
  case (Cons kv ms)
  obtain k s where kv: "kv = (k, s)" by (cases kv)
  from Cons.prems have "ready s" and rest: "\<forall>kv \<in> set ms. ready (snd kv)"
    by (simp_all add: kv)
  then show ?case
    by (simp add: kv finish_entry_ready Cons.IH [OF rest] ready_def)
qed

lemma distinct_final_scores: "distinct (map fst (final_scores dir))"
  unfolding final_scores_def by (rule distinct_foldl_credit_occ) simp

lemma map_of_final_scores:
  "map_of (final_scores dir) L =
     (if occurrences_of L dir = [] then None else Some (entry_for L dir))"
  by (simp add: final_scores_def map_of_foldl_credit_occ occurrences_of_def entry_for_def
                dict_get_def)

lemma final_scores_member:
  assumes "(k, s) \<in> set (final_scores dir)"
  shows "occurrences_of k dir \<noteq> [] \<and> s = entry_for k dir"
proof -
  have "map_of (final_scores dir) k = Some s"
    using assms distinct_final_scores by (simp add: map_of_eq_Some_iff)
  then show ?thesis
    by (simp add: map_of_final_scores split: if_splits)
qed

lemma entry_for_fields:
  "model (entry_for L dir) = L"
  "total_points (entry_for L dir) = sum_list (map occ_points (occurrences_of L dir))"
  "rankings_received (entry_for L dir) = int (length (occurrences_of L dir))"
  "position_history (entry_for L dir) = Some (map occ_place (occurrences_of L dir))"
  by (simp_all add: entry_for_def replay_model replay_total_points replay_rankings_received
                    replay_position_history new_entry_def)

lemma entry_for_places:
  "first_places (entry_for L dir) + second_places (entry_for L dir)
     + third_places (entry_for L dir) \<le> rankings_received (entry_for L dir)"
  using replay_places [of "new_entry L" "occurrences_of L dir"]
  by (simp add: entry_for_def replay_rankings_received new_entry_def)

lemma entry_for_ready: "occurrences_of L dir \<noteq> [] \<Longrightarrow> ready (entry_for L dir)"
  by (simp add: ready_def entry_for_fields dict_get_def)

lemma final_scores_ready: "\<forall>kv \<in> set (final_scores dir). ready (snd kv)"
proof
  fix kv assume "kv \<in> set (final_scores dir)"
  then have "(fst kv, snd kv) \<in> set (final_scores dir)" by simp
  from final_scores_member [OF this] show "ready (snd kv)"
    by (simp add: entry_for_ready)
qed

lemma empty_tally_advance:
  "advance empty_tally ocs a b = \<lparr>model_scores = foldl credit_occ [] ocs,
     total_conversations = a, total_rankings = b\<rparr>"
  by (simp add: advance_def empty_tally_def)

lemma get_overall_scores_eq:
  "get_overall_scores dir =
     Inr \<lparr>leaderboard = sort_leaderboard (map (\<lambda>kv. finished (snd kv)) (final_scores dir)),
          total_conversations_analyzed = int (length (ranked_messages dir)),
          total_rankings_processed = int (length (nonempty_rankings dir))\<rparr>"
  using build_leaderboard_ready [OF final_scores_ready, of dir "[]"]
  by (simp add: get_overall_scores_def foldl_process_file empty_tally_advance Let_def
                final_scores_def)

lemma filter_key_distinct:
  "distinct (map fst ms) \<Longrightarrow> map_of ms k = Some v \<Longrightarrow> filter (\<lambda>kv. fst kv = k) ms = [(k, v)]"
proof (induction ms)
  case Nil
  then show ?case by simp
next
  case (Cons a ms)
  show ?case
  proof (cases "fst a = k")
    case True
    with Cons.prems have "a = (k, v)" and "k \<notin> fst ` set ms"
      by (auto simp: prod_eq_iff)
    then have "filter (\<lambda>kv. fst kv = k) ms = []"
      by (auto simp: filter_empty_conv)
    with \<open>a = (k, v)\<close> show ?thesis by simp
  next
    case False
    with Cons show ?thesis by auto
  qed
qed

lemma finished_model: "model (finished s) = model s"
  by (simp add: finished_def)

lemma leaderboard_entry:
  assumes "occurrences_of L dir \<noteq> []"
  shows "filter (\<lambda>e. model e = L)
           (sort_leaderboard (map (\<lambda>kv. finished (snd kv)) (final_scores dir)))
         = [finished (entry_for L dir)]"
proof -
  have key: "\<forall>kv \<in> set (final_scores dir). (model (finished (snd kv)) = L) = (fst kv = L)"
  proof
    fix kv assume "kv \<in> set (final_scores dir)"
    then have "(fst kv, snd kv) \<in> set (final_scores dir)" by simp
    from final_scores_member [OF this]
    show "(model (finished (snd kv)) = L) = (fst kv = L)"
      by (simp add: finished_model entry_for_fields)
  qed
  have "filter (\<lambda>kv. model (finished (snd kv)) = L) (final_scores dir)
          = filter (\<lambda>kv. fst kv = L) (final_scores dir)"
    using key by (intro filter_cong) auto
  also have "\<dots> = [(L, entry_for L dir)]"
    using assms by (intro filter_key_distinct distinct_final_scores)
                   (simp add: map_of_final_scores)
  finally show ?thesis
    by (simp add: sort_leaderboard_def filter_sort filter_map o_def)
qed

lemma leaderboard_members:
  assumes "e \<in> set (sort_leaderboard (map (\<lambda>kv. finished (snd kv)) (final_scores dir)))"
  shows "occurrences_of (model e) dir \<noteq> [] \<and> e = finished (entry_for (model e) dir)"
proof -
  from assms obtain kv where kv: "kv \<in> set (final_scores dir)" and e: "e = finished (snd kv)"
    by (auto simp: sort_leaderboard_def)
  from kv have "(fst kv, snd kv) \<in> set (final_scores dir)" by simp
  from final_scores_member [OF this] show ?thesis
    by (simp add: e finished_model entry_for_fields)
qed

lemma sample_result:
  "get_overall_scores sample_dir = Inr
     \<lparr>leaderboard =
        [\<lparr>model = ''m1'', total_points = 5, rankings_received = 2,
          first_places = 1, second_places = 1, third_places = 0,
          position_history = None, average_position = Some (3 / 2),
          average_points = Some (5 / 2)\<rparr>,
         \<lparr>model = ''m2'', total_points = 5, rankings_received = 2,
          first_places = 1, second_places = 1, third_places = 0,
          position_history = None, average_position = Some (3 / 2),
          average_points = Some (5 / 2)\<rparr>,
         \<lparr>model = ''m3'', total_points = 2, rankings_received = 2,
          first_places = 1, second_places = 0, third_places = 1,
          position_history = None, average_position = Some 2,
          average_points = Some 1\<rparr>],
      total_conversations_analyzed = 2, total_rankings_processed = 3\<rparr>"
  by code_simp

lemma sample_occurrences:
  "occurrences sample_dir =
     [(3, 0, ''m1''), (3, 1, ''m2''), (3, 2, ''m3''), (3, 0, ''m2''), (3, 1, ''m1''),
      (1, 0, ''m3'')]"
  by code_simp

lemma finished_fields:
  "total_points (finished s) = total_points s"
  "rankings_received (finished s) = rankings_received s"
  "first_places (finished s) = first_places s"
  "second_places (finished s) = second_places s"
  "third_places (finished s) = third_places s"
  "position_history (finished s) = None"
  "average_points (finished s) = Some (nearest_double (total_points s) (rankings_received s))"
  "average_position (finished s) =
     Some (nearest_double (sum_list (dict_get (position_history s) []))
             (int (length (dict_get (position_history s) []))))"
  by (simp_all add: finished_def)

lemma located_occurrence:
  assumes "(name, c) \<in> set dir" "endswith name ''.json''" "\<not> is_archived c"
    and "messages c = Some ms" "m \<in> set ms" "role m = Some ''assistant''"
    and "stage2 m = Some rs" "r \<in> set rs" "parsed_ranking r = Some labels" "p < length labels"
  shows "(int (length rs), p, labels ! p) \<in> set (occurrences dir)"
proof -
  have "c \<in> set (active_conversations dir)"
    using assms(1-3) by (force simp: active_conversations_def)
  moreover have "m \<in> set (dict_get (messages c) [])"
    using assms(4,5) by (simp add: dict_get_def)
  ultimately have "m \<in> set (assistant_messages dir)"
    using assms(6) unfolding assistant_messages_def by auto
  moreover have "(p, labels ! p) \<in> set (enumerate 0 labels)"
    using assms(10) by (simp add: in_set_enumerate_eq)
  then have "(int (length rs), p, labels ! p) \<in> set (ranking_occurrences (int (length rs)) r)"
    using assms(9) by (force simp: ranking_occurrences_def dict_get_def)
  then have "(int (length rs), p, labels ! p) \<in> set (message_occurrences m)"
    using assms(7,8) by (auto simp: message_occurrences_def dict_get_def)
  ultimately show ?thesis
    by (auto simp: occurrences_def)
qed

lemma singleton_list: "length xs = 1 \<Longrightarrow> x \<in> set xs \<Longrightarrow> xs = [x]"
  by (cases xs) auto

lemma two_judge_result:
  "get_overall_scores two_judge_dir = Inr
     \<lparr>leaderboard =
        [\<lparr>model = ''m1'', total_points = 3, rankings_received = 2,
          first_places = 1, second_places = 1, third_places = 0,
          position_history = None, average_position = Some (3 / 2),
          average_points = Some (3 / 2)\<rparr>,
         \<lparr>model = ''m2'', total_points = 3, rankings_received = 2,
          first_places = 1, second_places = 1, third_places = 0,
          position_history = None, average_position = Some (3 / 2),
          average_points = Some (3 / 2)\<rparr>,
         \<lparr>model = ''m3'', total_points = 0, rankings_received = 1,
          first_places = 0, second_places = 0, third_places = 1,
          position_history = None, average_position = Some 3,
          average_points = Some 0\<rparr>],
      total_conversations_analyzed = 1, total_rankings_processed = 2\<rparr>"
  by code_simp

lemma active_conversations_filter:
  "active_conversations (filter (\<lambda>e. \<not> is_archived (snd e)) dir) = active_conversations dir"
  by (simp add: active_conversations_def conj_commute)

lemma active_conversations_archived:
  "active_conversations (before @ (name, c\<lparr>archived := Some True\<rparr>) # after)
     = active_conversations (before @ after)"
  by (simp add: active_conversations_def is_archived_def)

lemma get_overall_scores_active:
  "active_conversations dir = active_conversations dir' \<Longrightarrow>
     get_overall_scores dir = get_overall_scores dir'"
  by (simp add: get_overall_scores_eq final_scores_def occurrences_def ranked_messages_def
                nonempty_rankings_def assistant_messages_def)

lemma model_scores_final:
  "model_scores (foldl process_file empty_tally dir) = final_scores dir"
  by (simp add: foldl_process_file empty_tally_advance final_scores_def)

lemma thirds_occurrences:
  "occurrences thirds_dir = [(3, 0, ''m''), (3, 0, ''m''), (3, 0, ''x''), (3, 1, ''m'')]"
  by code_simp

lemma sample_scores:
  "model_scores (foldl process_file empty_tally sample_dir) =
     [(''m1'', \<lparr>model = ''m1'', total_points = 5, rankings_received = 2,
        first_places = 1, second_places = 1, third_places = 0,
        position_history = Some [1, 2], average_position = None, average_points = None\<rparr>),
      (''m2'', \<lparr>model = ''m2'', total_points = 5, rankings_received = 2,
        first_places = 1, second_places = 1, third_places = 0,
        position_history = Some [2, 1], average_position = None, average_points = None\<rparr>),
      (''m3'', \<lparr>model = ''m3'', total_points = 2, rankings_received = 2,
        first_places = 1, second_places = 0, third_places = 1,
        position_history = Some [3, 1], average_position = None, average_points = None\<rparr>)]"
  by code_simp

lemma sample_store_absent: "get_conversation ''data'' ''zz'' sample_store = None"
  by (simp add: sample_store_def get_conversation_def save_conversation_def
        get_conversation_path_def os_path_join_def sample_dir_def no_files_def)

lemma update_fresh: "k \<notin> fst ` set ps \<Longrightarrow> AList.update k v ps = ps @ [(k, v)]"
  by (induction ps) auto

lemma foldl_assign_distinct:
  "distinct (map fst kvs) \<Longrightarrow> fst ` set acc \<inter> fst ` set kvs = {} \<Longrightarrow>
     foldl assign acc kvs = acc @ kvs"
proof (induction kvs arbitrary: acc)
  case Nil
  then show ?case by simp
next
  case (Cons kv kvs)
  have fresh: "fst kv \<notin> fst ` set acc"
    using Cons.prems(2) by auto
  have step: "assign acc kv = acc @ [kv]"
    using update_fresh [OF fresh, of "snd kv"] by (simp add: assign_def)
  have "foldl assign (acc @ [kv]) kvs = (acc @ [kv]) @ kvs"
    using Cons.prems by (intro Cons.IH) auto
  then show ?case
    by (simp add: step)
qed

lemma native_roundtrip: "native v \<Longrightarrow> json_load (json_dump v) = v"
proof (induction v)
  case (PList xs)
  then have "map (\<lambda>x. json_load (json_dump x)) xs = xs"
    by (intro map_idI) (auto simp: list_all_iff)
  then show ?case by (simp add: o_def)
next
  case (PDict kvs)
  have each: "map_prod KStr json_load (map_prod key_text json_dump kv) = kv"
    if "kv \<in> set kvs" for kv
  proof -
    obtain k v where kv: "kv = (k, v)" by (cases kv)
    from PDict.prems that have "is_str_key k" and "native v"
      by (auto simp: list_all_iff kv)
    moreover from this obtain s where "k = KStr s" by (cases k) auto
    moreover have "json_load (json_dump v) = v"
      using PDict.IH [of kv v] that \<open>native v\<close> by (simp add: kv)
    ultimately show ?thesis by (simp add: kv)
  qed
  then have "map (\<lambda>kv. map_prod KStr json_load (map_prod key_text json_dump kv)) kvs = kvs"
    by (intro map_idI) auto
  moreover have "distinct (map fst kvs)"
    using PDict.prems by simp
  ultimately show ?case
    by (simp add: o_def foldl_assign_distinct)
qed simp_all

lemma reload_message_native: "native_message m \<Longrightarrow> reload_message m = m"
  by (cases "stage1 m"; cases "stage3 m")
     (simp_all add: native_message_def reload_message_def reload_def native_roundtrip)

lemma reload_messages_native:
  "list_all native_message ms \<Longrightarrow> map reload_message ms = ms"
  by (intro map_idI) (auto simp: list_all_iff reload_message_native)

lemma native_conv_messages:
  "list_all native_message (dict_get (messages native_conv) [])"
  by (simp add: native_conv_def dict_get_def native_message_def user_turn_def)

lemma py_get_ranking:
  "py_get (enc_ranking r) ''model'' d = Inr (case ranker_model r of None \<Rightarrow> d | Some j \<Rightarrow> JStr j)"
  "py_get (enc_ranking r) ''parsed_ranking'' d
     = Inr (case parsed_ranking r of None \<Rightarrow> d | Some ls \<Rightarrow> JList (map JStr ls))"
  by (simp_all add: py_get_def enc_ranking_def member_def split: option.splits)

lemma py_get_message:
  "py_get (enc_message m) ''role'' d = Inr (case role m of None \<Rightarrow> d | Some r \<Rightarrow> JStr r)"
  "py_get (enc_message m) ''stage2'' d
     = Inr (case stage2 m of None \<Rightarrow> d | Some rs \<Rightarrow> JList (map enc_ranking rs))"
  by (simp_all add: py_get_def enc_message_def member_def split: option.splits)

lemma py_get_conversation:
  "py_get (enc_conversation c) ''archived'' d
     = Inr (case archived c of None \<Rightarrow> d | Some b \<Rightarrow> JBool b)"
  "py_get (enc_conversation c) ''messages'' d
     = Inr (case messages c of None \<Rightarrow> d | Some ms \<Rightarrow> JList (map enc_message ms))"
  by (simp_all add: py_get_def enc_conversation_def member_def split: option.splits)

lemma enc_bump: "bump pts p (enc_scores s) = enc_scores (bump pts p s)"
  by (simp add: bump_def enc_scores_def Let_def)

lemma enc_new_entry: "new_entry (JStr l) = enc_scores (new_entry l)"
  by (simp add: new_entry_def enc_scores_def)

lemma map_of_enc:
  "map_of (map (map_prod JStr enc_scores) ms) (JStr l) = map_option enc_scores (map_of ms l)"
  by (induction ms) auto

lemma map_entry_enc:
  "AList.map_entry (JStr l) (bump pts p) (map (map_prod JStr enc_scores) ms)
     = map (map_prod JStr enc_scores) (AList.map_entry l (bump pts p) ms)"
  by (induction ms) (auto simp: enc_bump)

lemma credit_json_enc:
  "credit_json n (map (map_prod JStr enc_scores) ms) (p, JStr l)
     = Inr (map (map_prod JStr enc_scores) (credit n ms (p, l)))"
proof (cases "map_of ms l")
  case None
  have "map (map_prod JStr enc_scores) ms @ [(JStr l, new_entry (JStr l))]
          = map (map_prod JStr enc_scores) (ms @ [(l, new_entry l)])"
    by (simp add: enc_new_entry)
  then show ?thesis
    using None
    by (simp add: credit_json_def credit_def Let_def map_of_enc map_entry_enc
             del: map_append)
next
  case (Some s)
  then show ?thesis
    by (simp add: credit_json_def credit_def Let_def map_of_enc map_entry_enc)
qed

lemma enumerate_map: "enumerate n (map f xs) = map (map_prod (\<lambda>p. p) f) (enumerate n xs)"
  by (induction xs arbitrary: n) simp_all

lemma for_each_credit_enc:
  "for_each (credit_json n) (map (map_prod JStr enc_scores) ms) (map (map_prod (\<lambda>p. p) JStr) pls)
     = Inr (map (map_prod JStr enc_scores) (foldl (credit n) ms pls))"
proof (induction pls arbitrary: ms)
  case Nil
  then show ?case by simp
next
  case (Cons pl pls)
  obtain p l where pl: "pl = (p, l)" by (cases pl)
  show ?case
    by (simp add: pl credit_json_enc Cons.IH)
qed

lemma process_ranking_enc:
  "process_ranking_json n (enc_tally st) (enc_ranking r) = Inr (enc_tally (process_ranking n st r))"
proof (cases "dict_get (parsed_ranking r) [] = []")
  case True
  then show ?thesis
    by (cases "parsed_ranking r")
       (simp_all add: process_ranking_json_def process_ranking_def py_get_ranking dict_get_def)
next
  case False
  then obtain ls where ls: "parsed_ranking r = Some ls" "ls \<noteq> []"
    by (cases "parsed_ranking r") (simp_all add: dict_get_def)
  have "for_each (credit_json n) (model_scores (enc_tally st)) (enumerate 0 (map JStr ls))
          = Inr (map (map_prod JStr enc_scores)
                   (foldl (credit n) (model_scores st) (enumerate 0 ls)))"
    by (simp add: enumerate_map enc_tally_def for_each_credit_enc)
  then show ?thesis
    using ls
    by (simp add: process_ranking_json_def process_ranking_def py_get_ranking dict_get_def
                  enc_tally_def)
qed

lemma for_each_ranking_enc:
  "for_each (process_ranking_json n) (enc_tally st) (map enc_ranking rs)
     = Inr (enc_tally (foldl (process_ranking n) st rs))"
  by (induction rs arbitrary: st) (simp_all add: process_ranking_enc)

lemma enc_tally_counted:
  "enc_tally st\<lparr>total_conversations := total_conversations (enc_tally st) + 1\<rparr>
     = enc_tally (st\<lparr>total_conversations := total_conversations st + 1\<rparr>)"
  by (simp add: enc_tally_def)

lemma process_message_enc:
  "process_message_json (enc_tally st) (enc_message m) = Inr (enc_tally (process_message st m))"
proof (cases "role m = Some ''assistant''")
  case False
  then show ?thesis
    by (cases "role m")
       (simp_all add: process_message_json_def process_message_def py_get_message)
next
  case True
  show ?thesis
  proof (cases "dict_get (stage2 m) [] = []")
    case True
    with \<open>role m = Some ''assistant''\<close> show ?thesis
      by (cases "stage2 m")
         (simp_all add: process_message_json_def process_message_def py_get_message dict_get_def)
  next
    case False
    then obtain rs where rs: "stage2 m = Some rs" "rs \<noteq> []"
      by (cases "stage2 m") (simp_all add: dict_get_def)
    show ?thesis
      using \<open>role m = Some ''assistant''\<close> rs
      by (simp add: process_message_json_def process_message_def py_get_message dict_get_def
                    enc_tally_counted for_each_ranking_enc)
  qed
qed

lemma for_each_message_enc:
  "for_each process_message_json (enc_tally st) (map enc_message ms)
     = Inr (enc_tally (foldl process_message st ms))"
  by (induction ms arbitrary: st) (simp_all add: process_message_enc)

lemma process_file_enc:
  "process_file_json (enc_tally st) (name, enc_conversation c)
     = Inr (enc_tally (process_file st (name, c)))"
  by (cases "archived c"; cases "messages c")
     (simp_all add: process_file_json_def process_file_def py_get_conversation dict_get_def
                    for_each_message_enc)

lemma for_each_file_enc:
  "for_each process_file_json (enc_tally st) (enc_dir dir)
     = Inr (enc_tally (foldl process_file st dir))"
proof (induction dir arbitrary: st)
  case Nil
  then show ?case by (simp add: enc_dir_def)
next
  case (Cons e dir)
  obtain name c where e: "e = (name, c)" by (cases e)
  have "enc_dir (e # dir) = (name, enc_conversation c) # enc_dir dir"
    by (simp add: enc_dir_def e)
  then show ?case
    by (simp add: process_file_enc Cons.IH e)
qed

lemma finish_entry_enc: "finish_entry (enc_scores s) = map_sum (\<lambda>e. e) enc_scores (finish_entry s)"
  by (cases "position_history s")
     (simp_all add: finish_entry_def enc_scores_def true_div_def)

lemma build_leaderboard_enc:
  "build_leaderboard (map (map_prod JStr enc_scores) ms) (map enc_scores board)
     = map_sum (\<lambda>e. e) (map enc_scores) (build_leaderboard ms board)"
proof (induction ms arbitrary: board)
  case Nil
  then show ?case by simp
next
  case (Cons kv ms)
  obtain k s where kv: "kv = (k, s)" by (cases kv)
  have r: "rankings_received (enc_scores s) = rankings_received s"
    by (simp add: enc_scores_def)
  show ?case
  proof (cases "finish_entry s")
    case (Inl e)
    then show ?thesis
      by (simp add: kv r finish_entry_enc Cons.IH)
  next
    case (Inr s')
    have "build_leaderboard (map (map_prod JStr enc_scores) ms) (map enc_scores (board @ [s']))
            = map_sum (\<lambda>e. e) (map enc_scores) (build_leaderboard ms (board @ [s']))"
      by (rule Cons.IH)
    then show ?thesis
      using Inr by (simp add: kv r finish_entry_enc Cons.IH)
  qed
qed

lemma insort_key_enc:
  "insort_key (\<lambda>x. - total_points x) (enc_scores s) (map enc_scores xs)
     = map enc_scores (insort_key (\<lambda>x. - total_points x) s xs)"
  by (induction xs) (simp_all add: enc_scores_def)

lemma sort_leaderboard_enc:
  "sort_leaderboard (map enc_scores board) = map enc_scores (sort_leaderboard board)"
  by (induction board) (simp_all add: sort_leaderboard_def insort_key_enc)

lemma enc_empty_tally: "enc_tally empty_tally = empty_tally"
  by (simp add: enc_tally_def empty_tally_def)

lemma enc_tally_fields:
  "model_scores (enc_tally st) = map (map_prod JStr enc_scores) (model_scores st)"
  "total_conversations (enc_tally st) = total_conversations st"
  "total_rankings (enc_tally st) = total_rankings st"
  by (simp_all add: enc_tally_def)

lemma get_overall_scores_json_enc:
  "get_overall_scores_json (enc_dir dir) = map_sum (\<lambda>e. e) enc_overall (get_overall_scores dir)"
proof -
  let ?st = "foldl process_file empty_tally dir"
  have scan: "for_each process_file_json empty_tally (enc_dir dir) = Inr (enc_tally ?st)"
    using for_each_file_enc [of empty_tally dir] by (simp add: enc_empty_tally)
  have board: "build_leaderboard (map (map_prod JStr enc_scores) (model_scores ?st)) []
                 = map_sum (\<lambda>e. e) (map enc_scores) (build_leaderboard (model_scores ?st) [])"
    using build_leaderboard_enc [of "model_scores ?st" "[]"] by simp
  show ?thesis
    by (cases "build_leaderboard (model_scores ?st) []")
       (simp_all add: get_overall_scores_json_def get_overall_scores_def scan board Let_def
                      enc_overall_def sort_leaderboard_enc enc_tally_fields)
qed

lemma bit_length_upper: "n < 2 ^ bit_length n"
proof (induction n rule: bit_length.induct)
  case (1 n)
  show ?case
  proof (cases "n = 0")
    case True
    then show ?thesis by (simp add: bit_length.simps)
  next
    case False
    with 1 have "n div 2 < 2 ^ bit_length (n div 2)" by simp
    then have "n < 2 * 2 ^ bit_length (n div 2)" by linarith
    with False show ?thesis by (subst bit_length.simps) simp
  qed
qed

lemma bit_length_lower: "0 < n \<Longrightarrow> 2 ^ (bit_length n - 1) \<le> n"
proof (induction n rule: bit_length.induct)
  case (1 n)
  then have n: "n \<noteq> 0" by simp
  show ?case
  proof (cases "n div 2 = 0")
    case True
    with n have "bit_length n = 1"
      by (subst bit_length.simps) (simp add: bit_length.simps)
    with "1.prems" show ?thesis by simp
  next
    case False
    then have "0 < n div 2" by simp
    with 1 n have ih: "2 ^ (bit_length (n div 2) - 1) \<le> n div 2" by simp
    from False have pos: "0 < bit_length (n div 2)"
      by (subst bit_length.simps) simp
    have "(2::nat) ^ bit_length (n div 2) = 2 * 2 ^ (bit_length (n div 2) - 1)"
      using pos by (cases "bit_length (n div 2)") simp_all
    also have "\<dots> \<le> 2 * (n div 2)" using ih by simp
    also have "\<dots> \<le> n" by simp
    finally show ?thesis
      using n by (subst bit_length.simps) simp
  qed
qed

lemma pow2_powi: "pow2 k = 2 powi k"
  by (simp add: pow2_def power_int_def field_simps)

lemma pow2_pos: "0 < pow2 k"
  by (simp add: pow2_powi)

lemma pow2_add: "pow2 (i + j) = pow2 i * pow2 j"
  by (simp add: pow2_powi power_int_add)

lemma binade_bounds:
  assumes "0 < a" "0 < b"
  shows "pow2 (binade a b) \<le> of_int a / of_int b"
    and "of_int a / of_int b < pow2 (binade a b + 1)"
proof -
  let ?la = "bit_length (nat a)" and ?lb = "bit_length (nat b)"
  let ?k = "int ?la - int ?lb"
  have a_up: "(of_int a :: rat) < 2 ^ ?la"
  proof -
    have "nat a < 2 ^ ?la" by (rule bit_length_upper)
    then have "a < 2 ^ ?la" using assms(1) by (simp add: nat_less_iff)
    then have "(of_int a :: rat) < of_int (2 ^ ?la)" by (simp only: of_int_less_iff)
    then show ?thesis by simp
  qed
  have b_lo: "(2 :: rat) ^ (?lb - 1) \<le> of_int b"
  proof -
    have "2 ^ (?lb - 1) \<le> nat b" using assms(2) by (intro bit_length_lower) simp
    then have "2 ^ (?lb - 1) \<le> b" using assms(2) by (simp add: le_nat_iff)
    then have "(of_int (2 ^ (?lb - 1)) :: rat) \<le> of_int b" by (simp only: of_int_le_iff)
    then show ?thesis by simp
  qed
  have lb_pos: "0 < ?lb"
    using assms(2) by (subst bit_length.simps) simp
  have bq: "(0 :: rat) < of_int b" using assms(2) by simp
  have up: "(of_int a :: rat) < pow2 (?k + 1) * of_int b"
  proof -
    have "pow2 (?k + 1) * 2 ^ (?lb - 1) = (2 :: rat) ^ ?la"
    proof -
      have "pow2 (?k + 1) * pow2 (int (?lb - 1)) = pow2 (int ?la)"
        using lb_pos by (simp flip: pow2_add add: of_nat_diff)
      then show ?thesis by (simp add: pow2_powi)
    qed
    then have "(of_int a :: rat) < pow2 (?k + 1) * 2 ^ (?lb - 1)"
      using a_up by simp
    also have "\<dots> \<le> pow2 (?k + 1) * of_int b"
      using b_lo pow2_pos [of "?k + 1"] by (simp add: mult_left_mono)
    finally show ?thesis .
  qed
  show "pow2 (binade a b) \<le> of_int a / of_int b"
  proof (cases "pow2 ?k * of_int b \<le> (of_int a :: rat)")
    case True
    then show ?thesis
      using bq by (simp add: binade_def Let_def pos_le_divide_eq)
  next
    case False
    have b_up: "(of_int b :: rat) < 2 ^ ?lb"
    proof -
      have "nat b < 2 ^ ?lb" by (rule bit_length_upper)
      then have "b < 2 ^ ?lb" using assms(2) by (simp add: nat_less_iff)
      then have "(of_int b :: rat) < of_int (2 ^ ?lb)" by (simp only: of_int_less_iff)
      then show ?thesis by simp
    qed
    have a_lo: "(2 :: rat) ^ (?la - 1) \<le> of_int a"
    proof -
      have "2 ^ (?la - 1) \<le> nat a" using assms(1) by (intro bit_length_lower) simp
      then have "2 ^ (?la - 1) \<le> a" using assms(1) by (simp add: le_nat_iff)
      then have "(of_int (2 ^ (?la - 1)) :: rat) \<le> of_int a" by (simp only: of_int_le_iff)
      then show ?thesis by simp
    qed
    have la_pos: "0 < ?la"
      using assms(1) by (subst bit_length.simps) simp
    have "pow2 (?k - 1) * 2 ^ ?lb = (2 :: rat) ^ (?la - 1)"
    proof -
      have "pow2 (?k - 1) * pow2 (int ?lb) = pow2 (int (?la - 1))"
        using la_pos by (simp flip: pow2_add add: of_nat_diff)
      then show ?thesis by (simp add: pow2_powi)
    qed
    moreover have "pow2 (?k - 1) * of_int b \<le> pow2 (?k - 1) * 2 ^ ?lb"
      using b_up pow2_pos [of "?k - 1"] by (simp add: mult_left_mono)
    ultimately have "pow2 (?k - 1) * of_int b \<le> (of_int a :: rat)"
      using a_lo by linarith
    then show ?thesis
      using False bq by (simp add: binade_def Let_def pos_le_divide_eq)
  qed
  show "of_int a / of_int b < pow2 (binade a b + 1)"
  proof (cases "pow2 ?k * of_int b \<le> (of_int a :: rat)")
    case True
    then show ?thesis
      using up bq by (simp add: binade_def Let_def pos_divide_less_eq)
  next
    case False
    then show ?thesis
      using bq by (simp add: binade_def Let_def pos_divide_less_eq)
  qed
qed

lemma round_half_even_close: "\<bar>of_int (round_half_even x) - x\<bar> \<le> 1 / 2"
proof -
  define f where "f = \<lfloor>x\<rfloor>"
  have lo: "of_int f \<le> x" and hi: "x < of_int f + 1"
    unfolding f_def by linarith+
  consider "x - of_int f < 1 / 2" | "1 / 2 < x - of_int f" | "x - of_int f = 1 / 2"
    by linarith
  then show ?thesis
  proof cases
    case 1
    then have "round_half_even x = f"
      by (simp add: round_half_even_def Let_def f_def)
    with 1 lo show ?thesis by simp
  next
    case 2
    then have "round_half_even x = f + 1"
      by (simp add: round_half_even_def Let_def f_def)
    with 2 hi show ?thesis by simp
  next
    case 3
    then have "round_half_even x = f \<or> round_half_even x = f + 1"
      by (simp add: round_half_even_def Let_def f_def)
    with 3 show ?thesis by auto
  qed
qed

lemma signed_distance:
  fixes q y :: rat
  assumes "q \<noteq> 0"
  shows "\<bar>sgn q * y - q\<bar> = \<bar>y - \<bar>q\<bar>\<bar>"
proof (cases "0 < q")
  case True
  then show ?thesis by simp
next
  case False
  with assms have "q < 0" by simp
  then show ?thesis by simp
qed

lemma nearest_double_close:
  assumes "a \<noteq> 0" "b \<noteq> 0"
  shows "\<bar>nearest_double a b - of_int a / of_int b\<bar>
           \<le> pow2 (max (binade \<bar>a\<bar> \<bar>b\<bar>) (- 1022) - 52) / 2"
proof -
  let ?q = "of_int a / of_int b :: rat"
  let ?ulp = "pow2 (max (binade \<bar>a\<bar> \<bar>b\<bar>) (- 1022) - 52)"
  let ?m = "round_half_even (\<bar>?q\<bar> / ?ulp)"
  have ulp: "0 < ?ulp" by (rule pow2_pos)
  have q: "?q \<noteq> 0" using assms by simp
  have nd: "nearest_double a b = sgn ?q * (of_int ?m * ?ulp)"
    using assms by (simp add: nearest_double_def Let_def)
  have "\<bar>of_int ?m - \<bar>?q\<bar> / ?ulp\<bar> \<le> 1 / 2"
    by (rule round_half_even_close)
  then have "\<bar>of_int ?m - \<bar>?q\<bar> / ?ulp\<bar> * ?ulp \<le> 1 / 2 * ?ulp"
    using ulp by (intro mult_right_mono) simp_all
  moreover have "\<bar>of_int ?m - \<bar>?q\<bar> / ?ulp\<bar> * ?ulp = \<bar>of_int ?m * ?ulp - \<bar>?q\<bar>\<bar>"
  proof -
    have "\<bar>of_int ?m - \<bar>?q\<bar> / ?ulp\<bar> * ?ulp = \<bar>(of_int ?m - \<bar>?q\<bar> / ?ulp) * ?ulp\<bar>"
      using ulp by (simp add: abs_mult)
    also have "(of_int ?m - \<bar>?q\<bar> / ?ulp) * ?ulp = of_int ?m * ?ulp - \<bar>?q\<bar>"
      using ulp by (simp add: field_simps)
    finally show ?thesis .
  qed
  moreover have "\<bar>sgn ?q * (of_int ?m * ?ulp) - ?q\<bar> = \<bar>of_int ?m * ?ulp - \<bar>?q\<bar>\<bar>"
    using q by (rule signed_distance)
  ultimately show ?thesis
    unfolding nd by linarith
qed

section \<open>The claims\<close>

text \<open>
  \<^bold>\<open>C1.\<close> For every directory of stored conversations and every label \<open>L\<close> that occurs
  in a parsed ranking (inside the \<^verbatim>\<open>stage2\<close> of an assistant message of a non-archived
  conversation), \<open>get_overall_scores\<close> returns a result whose leaderboard has exactly one
  entry for \<open>L\<close>; its \<open>total_points\<close> is the sum, over the occurrences of \<open>L\<close>, of the
  length of that \<^verbatim>\<open>stage2\<close> minus the 0-indexed position, and its
  \<open>rankings_received\<close> is the number of those occurrences.
\<close>

theorem overall_scores_totals:
  assumes "L \<in> occ_label ` set (occurrences dir)"
  shows "\<exists>r e. get_overall_scores dir = Inr r
           \<and> filter (\<lambda>x. model x = L) (leaderboard r) = [e]
           \<and> total_points e = sum_list (map occ_points (occurrences_of L dir))
           \<and> rankings_received e = int (length (occurrences_of L dir))"
proof -
  from assms have ne: "occurrences_of L dir \<noteq> []"
    by (auto simp: occurrences_of_def filter_empty_conv)
  show ?thesis
    unfolding get_overall_scores_eq
    by (simp add: leaderboard_entry [OF ne] finished_fields entry_for_fields)
qed

theorem overall_scores_totals_witness:
  "''m1'' \<in> occ_label ` set (occurrences sample_dir)
   \<and> (\<exists>r e. get_overall_scores sample_dir = Inr r
          \<and> filter (\<lambda>x. model x = ''m1'') (leaderboard r) = [e]
          \<and> total_points e = 5 \<and> rankings_received e = 2)"
proof -
  have h: "''m1'' \<in> occ_label ` set (occurrences sample_dir)"
    by (simp add: sample_occurrences occ_label_def)
  have v: "map occ_points (occurrences_of ''m1'' sample_dir) = [3, 2]"
    by (simp add: occurrences_of_def sample_occurrences occ_label_def occ_points_def)
  have n: "length (occurrences_of ''m1'' sample_dir) = 2"
    by (simp add: occurrences_of_def sample_occurrences occ_label_def)
  show ?thesis
    using h overall_scores_totals [OF h] by (simp add: v n)
qed

text \<open>
  \<^bold>\<open>C2.\<close> The points awarded at 0-indexed position \<open>p\<close> of a parsed ranking are the
  length of the \<^verbatim>\<open>stage2\<close> it sits in minus \<open>p\<close>, with no lower bound. In any
  directory, a label ranked exactly once, at position \<open>p\<close> of a ranking result of an
  assistant message of a non-archived conversation whose \<^verbatim>\<open>stage2\<close> is \<open>rs\<close>, ends with
  \<open>total_points = length rs - p\<close>, which is zero or negative when \<open>p \<ge> length rs\<close>. On the
  scenario (one judge ranking \<open>m1\<close>, \<open>m2\<close>) \<open>m1\<close> gets 1 point, \<open>m2\<close> gets 0 and
  \<open>m1\<close> is listed first; with a third ranked label the third gets \<open>-1\<close>; with two
  judges the first place is worth 2.
\<close>

theorem points_literal:
  "((name, c) \<in> set dir \<and> endswith name ''.json'' \<and> \<not> is_archived c
      \<and> messages c = Some ms \<and> m \<in> set ms \<and> role m = Some ''assistant''
      \<and> stage2 m = Some rs \<and> r \<in> set rs \<and> parsed_ranking r = Some labels
      \<and> p < length labels \<and> length (occurrences_of (labels ! p) dir) = 1
    \<longrightarrow> (\<exists>res e. get_overall_scores dir = Inr res
           \<and> filter (\<lambda>x. model x = labels ! p) (leaderboard res) = [e]
           \<and> total_points e = int (length rs) - int p))
   \<and> get_overall_scores scenario_dir = Inr
       \<lparr>leaderboard =
          [\<lparr>model = ''m1'', total_points = 1, rankings_received = 1,
            first_places = 1, second_places = 0, third_places = 0,
            position_history = None, average_position = Some 1,
            average_points = Some 1\<rparr>,
           \<lparr>model = ''m2'', total_points = 0, rankings_received = 1,
            first_places = 0, second_places = 1, third_places = 0,
            position_history = None, average_position = Some 2,
            average_points = Some 0\<rparr>],
        total_conversations_analyzed = 1, total_rankings_processed = 1\<rparr>
   \<and> map_sum id (\<lambda>r. map (\<lambda>e. (model e, total_points e)) (leaderboard r))
         (get_overall_scores overlong_dir)
       = Inr [(''m1'', 1), (''m2'', 0), (''m3'', - 1)]
   \<and> map_sum id (\<lambda>r. map (\<lambda>e. (model e, total_points e)) (leaderboard r))
         (get_overall_scores two_judge_dir)
       = Inr [(''m1'', 3), (''m2'', 3), (''m3'', 0)]"
proof -
  have a: "\<exists>res e. get_overall_scores dir = Inr res
           \<and> filter (\<lambda>x. model x = labels ! p) (leaderboard res) = [e]
           \<and> total_points e = int (length rs) - int p"
    if loc: "(name, c) \<in> set dir" "endswith name ''.json''" "\<not> is_archived c"
        "messages c = Some ms" "m \<in> set ms" "role m = Some ''assistant''"
        "stage2 m = Some rs" "r \<in> set rs" "parsed_ranking r = Some labels" "p < length labels"
      and once: "length (occurrences_of (labels ! p) dir) = 1"
  proof -
    let ?oc = "(int (length rs), p, labels ! p)"
    have "?oc \<in> set (occurrences_of (labels ! p) dir)"
      using located_occurrence [OF loc] by (simp add: occurrences_of_def occ_label_def)
    with once have only: "occurrences_of (labels ! p) dir = [?oc]"
      by (rule singleton_list)
    then have ne: "occurrences_of (labels ! p) dir \<noteq> []" by simp
    show ?thesis
      unfolding get_overall_scores_eq
      by (simp add: leaderboard_entry [OF ne] finished_fields entry_for_fields only
                    occ_points_def)
  qed
  have b: "get_overall_scores scenario_dir = Inr
       \<lparr>leaderboard =
          [\<lparr>model = ''m1'', total_points = 1, rankings_received = 1,
            first_places = 1, second_places = 0, third_places = 0,
            position_history = None, average_position = Some 1,
            average_points = Some 1\<rparr>,
           \<lparr>model = ''m2'', total_points = 0, rankings_received = 1,
            first_places = 0, second_places = 1, third_places = 0,
            position_history = None, average_position = Some 2,
            average_points = Some 0\<rparr>],
        total_conversations_analyzed = 1, total_rankings_processed = 1\<rparr>"
    by code_simp
  have c: "map_sum id (\<lambda>r. map (\<lambda>e. (model e, total_points e)) (leaderboard r))
         (get_overall_scores overlong_dir)
       = Inr [(''m1'', 1), (''m2'', 0), (''m3'', - 1)]"
    by code_simp
  have d: "map_sum id (\<lambda>r. map (\<lambda>e. (model e, total_points e)) (leaderboard r))
         (get_overall_scores two_judge_dir)
       = Inr [(''m1'', 3), (''m2'', 3), (''m3'', 0)]"
    by (simp add: two_judge_result)
  from a b c d show ?thesis by blast
qed

theorem points_literal_witness:
  "(hd two_judge_dir) \<in> set two_judge_dir
   \<and> endswith (fst (hd two_judge_dir)) ''.json''
   \<and> \<not> is_archived (snd (hd two_judge_dir))
   \<and> messages (snd (hd two_judge_dir))
        = Some [assistant_turn [judged ''judgeA'' [''m1'', ''m2'', ''m3''],
                                judged ''judgeB'' [''m2'', ''m1'']]]
   \<and> length (occurrences_of ''m3'' two_judge_dir) = 1
   \<and> (\<exists>res e. get_overall_scores two_judge_dir = Inr res
          \<and> filter (\<lambda>x. model x = ''m3'') (leaderboard res) = [e]
          \<and> total_points e = 2 - 2)"
proof -
  let ?r = "judged ''judgeA'' [''m1'', ''m2'', ''m3'']"
  let ?rs = "[?r, judged ''judgeB'' [''m2'', ''m1'']]"
  let ?m = "assistant_turn ?rs"
  have e: "hd two_judge_dir \<in> set two_judge_dir"
    and n: "endswith (fst (hd two_judge_dir)) ''.json''"
    and a: "\<not> is_archived (snd (hd two_judge_dir))"
    and ms: "messages (snd (hd two_judge_dir)) = Some [?m]"
    by (simp_all add: two_judge_dir_def endswith_def is_archived_def)
  have once: "length (occurrences_of ''m3'' two_judge_dir) = 1"
    by code_simp
  have hyp: "(fst (hd two_judge_dir), snd (hd two_judge_dir)) \<in> set two_judge_dir
      \<and> endswith (fst (hd two_judge_dir)) ''.json'' \<and> \<not> is_archived (snd (hd two_judge_dir))
      \<and> messages (snd (hd two_judge_dir)) = Some [?m] \<and> ?m \<in> set [?m]
      \<and> role ?m = Some ''assistant''
      \<and> stage2 ?m = Some ?rs \<and> ?r \<in> set ?rs
      \<and> parsed_ranking ?r = Some [''m1'', ''m2'', ''m3'']
      \<and> 2 < length [''m1'', ''m2'', ''m3'']
      \<and> length (occurrences_of ([''m1'', ''m2'', ''m3''] ! 2) two_judge_dir) = 1"
    using e n a ms once by (simp add: assistant_turn_def judged_def)
  from points_literal [of "fst (hd two_judge_dir)" "snd (hd two_judge_dir)" two_judge_dir
         "[?m]" ?m ?rs ?r "[''m1'', ''m2'', ''m3'']" 2] hyp
  have "\<exists>res e. get_overall_scores two_judge_dir = Inr res
          \<and> filter (\<lambda>x. model x = [''m1'', ''m2'', ''m3''] ! 2) (leaderboard res) = [e]
          \<and> total_points e = int (length ?rs) - int 2"
    by blast
  then show ?thesis
    using e n a ms once by simp
qed

text \<open>
  \<^bold>\<open>C3.\<close> \<open>total_conversations_analyzed\<close> is the number of assistant messages with a
  non-empty \<^verbatim>\<open>stage2\<close> in the non-archived conversations (one per message, not one per
  conversation), and \<open>total_rankings_processed\<close> is the number of ranking results with a
  non-empty \<^verbatim>\<open>parsed_ranking\<close> among those messages. In the sample directory one
  conversation is scanned and it counts for two.
\<close>

theorem counters_count_messages:
  "\<exists>r. get_overall_scores dir = Inr r
     \<and> total_conversations_analyzed r = int (length (ranked_messages dir))
     \<and> total_rankings_processed r = int (length (nonempty_rankings dir))"
  by (simp add: get_overall_scores_eq)

theorem counters_count_messages_witness:
  "length (active_conversations sample_dir) = 1
   \<and> (\<exists>r. get_overall_scores sample_dir = Inr r
         \<and> total_conversations_analyzed r = 2 \<and> total_rankings_processed r = 3)"
proof -
  have "length (active_conversations sample_dir) = 1"
    and "length (ranked_messages sample_dir) = 2"
    and "length (nonempty_rankings sample_dir) = 3"
    by code_simp+
  then show ?thesis
    using counters_count_messages [of sample_dir] by simp
qed

text \<open>
  \<^bold>\<open>C4.\<close> Archived conversations contribute nothing: the result on a directory is the
  result on its non-archived part, and a conversation whose \<^verbatim>\<open>archived\<close> is set to true
  can be removed from the directory without changing the leaderboard or the counters.
\<close>

theorem archived_contribute_nothing:
  "get_overall_scores dir = get_overall_scores (filter (\<lambda>e. \<not> is_archived (snd e)) dir)
   \<and> get_overall_scores (before @ (name, c\<lparr>archived := Some True\<rparr>) # after)
       = get_overall_scores (before @ after)"
  using get_overall_scores_active [OF active_conversations_filter [symmetric], of dir]
        get_overall_scores_active [OF active_conversations_archived, of before name c after]
  by simp

text \<open>
  \<^bold>\<open>C5.\<close> The leaderboard is sorted non-increasing by \<open>total_points\<close>: of two adjacent
  entries the later one never has more points.
\<close>

theorem leaderboard_sorted:
  "\<exists>r. get_overall_scores dir = Inr r
     \<and> (\<forall>i. Suc i < length (leaderboard r) \<longrightarrow>
           total_points (leaderboard r ! Suc i) \<le> total_points (leaderboard r ! i))"
proof -
  let ?b = "sort_leaderboard (map (\<lambda>kv. finished (snd kv)) (final_scores dir))"
  have "sorted (map (\<lambda>x. - total_points x) ?b)"
    by (simp add: sort_leaderboard_def)
  then have "\<forall>i. Suc i < length ?b \<longrightarrow> total_points (?b ! Suc i) \<le> total_points (?b ! i)"
    by (auto simp: sorted_iff_nth_Suc)
  then show ?thesis
    by (simp add: get_overall_scores_eq)
qed

theorem leaderboard_sorted_witness:
  "\<exists>r. get_overall_scores sample_dir = Inr r
     \<and> Suc 1 < length (leaderboard r)
     \<and> total_points (leaderboard r ! Suc 1) \<le> total_points (leaderboard r ! 1)
     \<and> map total_points (leaderboard r) = [5, 5, 2]"
  using leaderboard_sorted [of sample_dir] by (simp add: sample_result)

text \<open>
  \<^bold>\<open>C6\<close> (amended). For every label \<open>L\<close> that was ranked, the entry returned for
  \<open>L\<close> has \<open>rankings_received > 0\<close> and no \<^verbatim>\<open>position_history\<close>; its
  \<open>average_points\<close> is what Python's true division gives for
  \<open>total_points / rankings_received\<close>, the double nearest to the exact quotient, and its
  \<open>average_position\<close> is the double nearest to the arithmetic mean of the 1-indexed
  positions at which \<open>L\<close> occurred. The claim as stated, equality with the quotient
  itself, fails whenever the quotient is not a double: a label with 8 points from 3
  rankings gets 2.6666666666666665, which is \<open>6004799503160661 / 2 ^ 51\<close> and not
  \<open>8 / 3\<close>.
\<close>

theorem averages_are_doubles:
  assumes "L \<in> occ_label ` set (occurrences dir)"
  shows "\<exists>r e. get_overall_scores dir = Inr r
           \<and> filter (\<lambda>x. model x = L) (leaderboard r) = [e]
           \<and> 0 < rankings_received e
           \<and> average_points e = Some (nearest_double (total_points e) (rankings_received e))
           \<and> average_position e =
               Some (nearest_double (sum_list (map occ_place (occurrences_of L dir)))
                       (int (length (occurrences_of L dir))))
           \<and> position_history e = None"
proof -
  from assms have ne: "occurrences_of L dir \<noteq> []"
    by (auto simp: occurrences_of_def filter_empty_conv)
  show ?thesis
    unfolding get_overall_scores_eq
    using ne by (simp add: leaderboard_entry [OF ne] finished_fields entry_for_fields dict_get_def)
qed

theorem averages_are_doubles_witness:
  "''m'' \<in> occ_label ` set (occurrences thirds_dir)
   \<and> nearest_double 8 3 = 6004799503160661 / 2251799813685248
   \<and> nearest_double 4 3 = 6004799503160661 / 4503599627370496
   \<and> (\<exists>r e. get_overall_scores thirds_dir = Inr r
          \<and> filter (\<lambda>x. model x = ''m'') (leaderboard r) = [e]
          \<and> total_points e = 8 \<and> rankings_received e = 3
          \<and> average_points e = Some (6004799503160661 / 2251799813685248)
          \<and> average_position e = Some (6004799503160661 / 4503599627370496)
          \<and> position_history e = None)"
proof -
  have h: "''m'' \<in> occ_label ` set (occurrences thirds_dir)"
    by (simp add: thirds_occurrences occ_label_def)
  have v: "map occ_place (occurrences_of ''m'' thirds_dir) = [1, 1, 2]"
    by (simp add: occurrences_of_def thirds_occurrences occ_label_def occ_place_def)
  have n: "length (occurrences_of ''m'' thirds_dir) = 3"
    by (simp add: occurrences_of_def thirds_occurrences occ_label_def)
  have d1: "nearest_double 8 3 = 6004799503160661 / 2251799813685248"
    and d2: "nearest_double 4 3 = 6004799503160661 / 4503599627370496"
    by code_simp+
  have r: "get_overall_scores thirds_dir = Inr
     \<lparr>leaderboard =
        [\<lparr>model = ''m'', total_points = 8, rankings_received = 3,
          first_places = 2, second_places = 1, third_places = 0,
          position_history = None,
          average_position = Some (6004799503160661 / 4503599627370496),
          average_points = Some (6004799503160661 / 2251799813685248)\<rparr>,
         \<lparr>model = ''x'', total_points = 3, rankings_received = 1,
          first_places = 1, second_places = 0, third_places = 0,
          position_history = None, average_position = Some 1,
          average_points = Some 3\<rparr>],
      total_conversations_analyzed = 1, total_rankings_processed = 3\<rparr>"
    by code_simp
  show ?thesis
    using h averages_are_doubles [OF h] by (simp add: v n r d1 d2)
qed

theorem average_is_not_the_quotient:
  "get_overall_scores thirds_dir = Inr
     \<lparr>leaderboard =
        [\<lparr>model = ''m'', total_points = 8, rankings_received = 3,
          first_places = 2, second_places = 1, third_places = 0,
          position_history = None,
          average_position = Some (6004799503160661 / 4503599627370496),
          average_points = Some (6004799503160661 / 2251799813685248)\<rparr>,
         \<lparr>model = ''x'', total_points = 3, rankings_received = 1,
          first_places = 1, second_places = 0, third_places = 0,
          position_history = None, average_position = Some 1,
          average_points = Some 3\<rparr>],
      total_conversations_analyzed = 1, total_rankings_processed = 3\<rparr>
   \<and> (6004799503160661 / 2251799813685248 :: rat) \<noteq> 8 / 3
   \<and> (6004799503160661 / 4503599627370496 :: rat) \<noteq> (1 + 1 + 2) / 3"
proof -
  have "get_overall_scores thirds_dir = Inr
     \<lparr>leaderboard =
        [\<lparr>model = ''m'', total_points = 8, rankings_received = 3,
          first_places = 2, second_places = 1, third_places = 0,
          position_history = None,
          average_position = Some (6004799503160661 / 4503599627370496),
          average_points = Some (6004799503160661 / 2251799813685248)\<rparr>,
         \<lparr>model = ''x'', total_points = 3, rankings_received = 1,
          first_places = 1, second_places = 0, third_places = 0,
          position_history = None, average_position = Some 1,
          average_points = Some 3\<rparr>],
      total_conversations_analyzed = 1, total_rankings_processed = 3\<rparr>"
    by code_simp
  then show ?thesis by simp
qed

text \<open>
  \<^bold>\<open>C7\<close> (amended). On every directory of documents that follow the data model,
  each field missing or of its declared type, \<open>get_overall_scores\<close> returns a result, the
  one computed on the typed documents. A message whose \<^verbatim>\<open>stage2\<close> is missing or empty
  leaves the three local variables as they were, and so does a ranking result whose
  \<^verbatim>\<open>parsed_ranking\<close> is missing or empty. The function has no guard against values
  of other types, so the claim as stated, a result on every input, fails:
  \<^verbatim>\<open>"messages": null\<close> raises \<^verbatim>\<open>TypeError\<close> and \<^verbatim>\<open>"stage2": [null]\<close> raises
  \<^verbatim>\<open>AttributeError\<close>.
\<close>

theorem permissive_parsing:
  "(\<exists>r. get_overall_scores dir = Inr r
        \<and> get_overall_scores_json (enc_dir dir) = Inr (enc_overall r))
   \<and> process_message_json st (enc_message (m\<lparr>stage2 := None\<rparr>)) = Inr st
   \<and> process_message_json st (enc_message (m\<lparr>stage2 := Some []\<rparr>)) = Inr st
   \<and> process_ranking_json n st (enc_ranking (rr\<lparr>parsed_ranking := None\<rparr>)) = Inr st
   \<and> process_ranking_json n st (enc_ranking (rr\<lparr>parsed_ranking := Some []\<rparr>)) = Inr st"
proof -
  have "\<exists>r. get_overall_scores dir = Inr r
        \<and> get_overall_scores_json (enc_dir dir) = Inr (enc_overall r)"
    by (simp add: get_overall_scores_json_enc get_overall_scores_eq)
  moreover have "process_message_json st (enc_message (m\<lparr>stage2 := v\<rparr>)) = Inr st"
    if "v = None \<or> v = Some []" for v
    using that
    by (cases "role m") (auto simp: process_message_json_def py_get_message)
  moreover have "process_ranking_json n st (enc_ranking (rr\<lparr>parsed_ranking := v\<rparr>)) = Inr st"
    if "v = None \<or> v = Some []" for v
    using that by (auto simp: process_ranking_json_def py_get_ranking)
  ultimately show ?thesis by simp
qed

theorem permissive_parsing_witness:
  "get_overall_scores_json (enc_dir sample_dir) = Inr
     \<lparr>leaderboard =
        [\<lparr>model = JStr ''m1'', total_points = 5, rankings_received = 2,
          first_places = 1, second_places = 1, third_places = 0,
          position_history = None, average_position = Some (3 / 2),
          average_points = Some (5 / 2)\<rparr>,
         \<lparr>model = JStr ''m2'', total_points = 5, rankings_received = 2,
          first_places = 1, second_places = 1, third_places = 0,
          position_history = None, average_position = Some (3 / 2),
          average_points = Some (5 / 2)\<rparr>,
         \<lparr>model = JStr ''m3'', total_points = 2, rankings_received = 2,
          first_places = 1, second_places = 0, third_places = 1,
          position_history = None, average_position = Some 2,
          average_points = Some 1\<rparr>],
      total_conversations_analyzed = 2, total_rankings_processed = 3\<rparr>"
  using permissive_parsing [of sample_dir]
  by (auto simp: sample_result enc_overall_def enc_scores_def)

theorem malformed_data_raises:
  "get_overall_scores_json null_messages_dir = Inl TypeError
   \<and> get_overall_scores_json null_ranking_dir = Inl AttributeError"
  by code_simp

text \<open>
  \<^bold>\<open>C8\<close> (amended). When the conversation id is absent from the store,
  \<open>add_user_message\<close>, \<open>add_assistant_message\<close>, \<open>update_conversation_title\<close> and
  \<open>archive_conversation\<close> raise a \<^verbatim>\<open>ValueError\<close> whose message carries the id, and
  leave the store unchanged. \<open>delete_conversation\<close> guards the removal with
  \<^verbatim>\<open>os.path.exists\<close>: on an absent id it returns normally, also leaving the store
  unchanged. The claim as stated, that all five operations fail, does not hold for
  \<open>delete_conversation\<close>, as the evaluation on the empty store shows.
\<close>

theorem absent_conversation:
  assumes "get_conversation D cid fs = None"
  shows "add_user_message D cid text fs
           = (Inl (ValueError (''Conversation '' @ cid @ '' not found'')), fs)
       \<and> add_assistant_message D cid s1 s2 s3 fs
           = (Inl (ValueError (''Conversation '' @ cid @ '' not found'')), fs)
       \<and> update_conversation_title D cid new_title fs
           = (Inl (ValueError (''Conversation '' @ cid @ '' not found'')), fs)
       \<and> archive_conversation D cid flag fs
           = (Inl (ValueError (''Conversation '' @ cid @ '' not found'')), fs)
       \<and> delete_conversation D cid fs = (Inr (), fs)"
  using assms
  by (simp add: add_user_message_def add_assistant_message_def
        update_conversation_title_def archive_conversation_def delete_conversation_def
        not_found_def get_conversation_def)

theorem absent_conversation_witness:
  "get_conversation ''data'' ''zz'' sample_store = None
   \<and> add_user_message ''data'' ''zz'' ''hi'' sample_store
        = (Inl (ValueError ''Conversation zz not found''), sample_store)
   \<and> add_assistant_message ''data'' ''zz'' PNone [] PNone sample_store
        = (Inl (ValueError ''Conversation zz not found''), sample_store)
   \<and> update_conversation_title ''data'' ''zz'' ''t'' sample_store
        = (Inl (ValueError ''Conversation zz not found''), sample_store)
   \<and> archive_conversation ''data'' ''zz'' True sample_store
        = (Inl (ValueError ''Conversation zz not found''), sample_store)
   \<and> delete_conversation ''data'' ''zz'' sample_store = (Inr (), sample_store)"
  using sample_store_absent
        absent_conversation [OF sample_store_absent, of "''hi''" PNone "[]" PNone "''t''" True]
  by simp

theorem delete_absent_is_silent:
  "get_conversation ''data'' ''c1'' no_files = None
   \<and> delete_conversation ''data'' ''c1'' no_files = (Inr (), no_files)"
  by (simp add: get_conversation_def delete_conversation_def no_files_def)

text \<open>
  \<^bold>\<open>C9\<close> (amended). When \<open>save_conversation\<close> returns normally, \<open>get_conversation\<close>
  with the same id returns a conversation whose messages are the saved ones after the
  conversion of \<^verbatim>\<open>json.dump\<close> and \<^verbatim>\<open>json.load\<close>; they are identical to the saved
  ones, element for element and in order, when the payloads of the messages are plain
  JSON (no tuple, string keys only). The claim as stated, for every conversation value,
  fails: a tuple comes back as a list and an integer key as a string.
\<close>

theorem save_then_load:
  assumes "save_conversation D c fs = (Inr (), fs')"
  shows "\<exists>c'. get_conversation D (conv_id c) fs' = Some c'
           \<and> messages c' = map_option (map reload_message) (messages c)
           \<and> (list_all native_message (dict_get (messages c) []) \<longrightarrow> messages c' = messages c)"
proof -
  let ?p = "get_conversation_path D (conv_id c)"
  from assms have fs': "fs' = fs\<lparr>documents := (documents fs)(?p \<mapsto> reload_conversation c)\<rparr>"
    by (auto simp: save_conversation_def Let_def split: if_splits)
  have "get_conversation D (conv_id c) fs' = Some (reload_conversation c)"
    by (simp add: fs' get_conversation_def)
  moreover have "messages (reload_conversation c) = map_option (map reload_message) (messages c)"
    by (simp add: reload_conversation_def)
  moreover have "map_option (map reload_message) (messages c) = messages c"
    if "list_all native_message (dict_get (messages c) [])"
    using that by (cases "messages c") (simp_all add: dict_get_def reload_messages_native)
  ultimately show ?thesis by simp
qed

theorem save_then_load_witness:
  "save_conversation ''data'' native_conv no_files
     = (Inr (), snd (save_conversation ''data'' native_conv no_files))
   \<and> list_all native_message (dict_get (messages native_conv) [])
   \<and> (\<exists>c'. get_conversation ''data'' ''n1'' (snd (save_conversation ''data'' native_conv no_files))
             = Some c'
          \<and> messages c' = messages native_conv)"
proof -
  have s: "save_conversation ''data'' native_conv no_files
     = (Inr (), snd (save_conversation ''data'' native_conv no_files))"
    by (simp add: save_conversation_def no_files_def Let_def)
  have i: "conv_id native_conv = ''n1''"
    by (simp add: native_conv_def)
  show ?thesis
    using s native_conv_messages save_then_load [OF s] by (auto simp: i)
qed

theorem tuples_come_back_as_lists:
  "conv_id tuple_conv = ''t1''
   \<and> fst (save_conversation ''data'' tuple_conv no_files) = Inr ()
   \<and> get_conversation ''data'' ''t1'' (snd (save_conversation ''data'' tuple_conv no_files))
       = Some listed_conv
   \<and> messages listed_conv \<noteq> messages tuple_conv"
proof -
  have r: "reload_conversation tuple_conv = listed_conv"
    by code_simp
  have "messages listed_conv \<noteq> messages tuple_conv"
    by (simp add: listed_conv_def tuple_conv_def)
  moreover have "conv_id tuple_conv = ''t1''"
    by (simp add: tuple_conv_def)
  ultimately show ?thesis
    by (simp add: save_conversation_def no_files_def Let_def get_conversation_def r)
qed

text \<open>
  \<^bold>\<open>C10.\<close> When the scan ends, every entry of \<^verbatim>\<open>model_scores\<close> has
  \<open>rankings_received \<ge> 1\<close> and a non-empty position history, so computing its two
  averages raises nothing; and every entry of the returned leaderboard has
  \<open>rankings_received \<ge> 1\<close> and
  \<open>first_places + second_places + third_places \<le> rankings_received\<close>.
\<close>

theorem no_division_by_zero:
  "(\<forall>kv \<in> set (model_scores (foldl process_file empty_tally dir)).
      1 \<le> rankings_received (snd kv)
      \<and> (\<exists>h. position_history (snd kv) = Some h \<and> h \<noteq> [])
      \<and> (\<exists>s. finish_entry (snd kv) = Inr s))
   \<and> (\<exists>r. get_overall_scores dir = Inr r
         \<and> (\<forall>e \<in> set (leaderboard r).
               1 \<le> rankings_received e
               \<and> first_places e + second_places e + third_places e \<le> rankings_received e))"
proof -
  have "1 \<le> rankings_received (snd kv)
      \<and> (\<exists>h. position_history (snd kv) = Some h \<and> h \<noteq> [])
      \<and> (\<exists>s. finish_entry (snd kv) = Inr s)"
    if "kv \<in> set (final_scores dir)" for kv
  proof -
    from that have "(fst kv, snd kv) \<in> set (final_scores dir)" by simp
    from final_scores_member [OF this]
    have ne: "occurrences_of (fst kv) dir \<noteq> []" and eq: "snd kv = entry_for (fst kv) dir"
      by simp_all
    have "ready (snd kv)"
      unfolding eq using ne by (rule entry_for_ready)
    then have "\<exists>s. finish_entry (snd kv) = Inr s"
      by (simp add: finish_entry_ready)
    moreover have "1 \<le> rankings_received (snd kv)"
      and "\<exists>h. position_history (snd kv) = Some h \<and> h \<noteq> []"
      using ne by (simp_all add: eq entry_for_fields Suc_le_eq)
    ultimately show ?thesis by simp
  qed
  moreover have "1 \<le> rankings_received e
      \<and> first_places e + second_places e + third_places e \<le> rankings_received e"
    if "e \<in> set (sort_leaderboard (map (\<lambda>kv. finished (snd kv)) (final_scores dir)))" for e
  proof -
    from leaderboard_members [OF that]
    have ne: "occurrences_of (model e) dir \<noteq> []"
      and eq: "e = finished (entry_for (model e) dir)"
      by simp_all
    have "1 \<le> rankings_received (entry_for (model e) dir)"
      using ne by (simp add: entry_for_fields Suc_le_eq)
    then show ?thesis
      using entry_for_places [of "model e" dir]
      by (subst (1 2 3 4 5) eq) (simp add: finished_fields)
  qed
  ultimately show ?thesis
    by (simp add: model_scores_final get_overall_scores_eq)
qed

theorem no_division_by_zero_witness:
  "(\<exists>kv \<in> set (model_scores (foldl process_file empty_tally sample_dir)).
      fst kv = ''m3'' \<and> rankings_received (snd kv) = 2
      \<and> position_history (snd kv) = Some [3, 1]
      \<and> (\<exists>s. finish_entry (snd kv) = Inr s))
   \<and> (\<exists>r. get_overall_scores sample_dir = Inr r
         \<and> (\<exists>e \<in> set (leaderboard r).
               model e = ''m3'' \<and> rankings_received e = 2
               \<and> first_places e + second_places e + third_places e \<le> rankings_received e))"
  using no_division_by_zero [of sample_dir]
  by (simp add: sample_scores sample_result)

end
